theory Spec2Isabelle
  imports Complex_Main "HOL-Library.Multiset" "HOL-Library.Sublist" "HOL-Library.AList"
    "HOL-Library.Code_Target_Nat"
begin

section \<open>Text\<close>

text \<open>
  A Python \<open>str\<close> is a sequence of Unicode code points. HOL's \<open>char\<close> has eight bits,
  and the patterns of \<open>ipo_data_extractor.py\<close> contain code points beyond 255 (U+201A,
  U+03C0), so text is modelled as a list of code points. \<open>T\<close> reads an ASCII literal.
\<close>

type_synonym str = "nat list"

definition T :: "string \<Rightarrow> str" where
  "T s = map of_char s"

text \<open>
  \<open>str.lower()\<close>, on the ASCII letters. Python also lowers the cased letters beyond ASCII;
  the model leaves those code points as they are.
\<close>

definition lower_cp :: "nat \<Rightarrow> nat" where
  "lower_cp c = (if 65 \<le> c \<and> c \<le> 90 then c + 32 else c)"

definition lower :: "str \<Rightarrow> str" where
  "lower s = map lower_cp s"

section \<open>The similarity ratio of \<open>difflib.SequenceMatcher\<close>\<close>

text \<open>
  \<open>calculate_similarity\<close> calls \<open>SequenceMatcher(None, a, b).ratio()\<close> of Python's standard
  library. The functions below follow \<open>difflib.py\<close>: \<open>__chain_b\<close> (no junk predicate,
  \<open>autojunk\<close> on), \<open>find_longest_match\<close>, \<open>get_matching_blocks\<close> and \<open>ratio\<close>.
\<close>

text \<open>
  \<open>b2j[x]\<close>: the indices of \<open>x\<close> in \<open>b\<close>, ascending. When \<open>b\<close> has 200 elements or
  more, an element occurring more than \<open>n // 100 + 1\<close> times is "popular" and loses its
  entry. The junk set is empty, as \<open>isjunk\<close> is \<open>None\<close>.
\<close>

definition b2j :: "str \<Rightarrow> nat \<Rightarrow> nat list" where
  "b2j b x =
     (let idxs = filter (\<lambda>j. b ! j = x) [0..<length b]
      in if 200 \<le> length b \<and> length b div 100 + 1 < length idxs then [] else idxs)"

type_synonym block = "nat \<times> nat \<times> nat"

text \<open>
  The inner loop of \<open>find_longest_match\<close> at one index \<open>j\<close> of \<open>b2j[a[i]]\<close>:
  \<open>k = newj2len[j] = j2len.get(j-1, 0) + 1\<close>, and the best block moves only when \<open>k\<close> is
  strictly larger. \<open>j2len\<close> holds run lengths, all positive; 0 stands for a missing key.
  The source skips \<open>j < blo\<close> and breaks at \<open>j >= bhi\<close>; the indices ascend, so
  everything after the break would be skipped as well.
\<close>

definition flm_step :: "nat \<Rightarrow> nat \<Rightarrow> nat \<Rightarrow> (nat \<Rightarrow> nat) \<Rightarrow> nat
    \<Rightarrow> (nat \<Rightarrow> nat) \<times> block \<Rightarrow> (nat \<Rightarrow> nat) \<times> block" where
  "flm_step i blo bhi j2len j st =
     (case st of (newj2len, (besti, bestj, bestsize)) \<Rightarrow>
        if j < blo \<or> bhi \<le> j then st
        else
          (let k = (if j = 0 then 0 else j2len (j - 1)) + 1
           in (newj2len(j := k),
               if bestsize < k then (i + 1 - k, j + 1 - k, k) else (besti, bestj, bestsize))))"

definition flm_row :: "str \<Rightarrow> str \<Rightarrow> nat \<Rightarrow> nat \<Rightarrow> nat
    \<Rightarrow> (nat \<Rightarrow> nat) \<times> block \<Rightarrow> (nat \<Rightarrow> nat) \<times> block" where
  "flm_row a b blo bhi i st =
     (case st of (j2len, best) \<Rightarrow>
        fold (flm_step i blo bhi j2len) (b2j b (a ! i)) (\<lambda>_. 0, best))"

text \<open>The two extension loops; nothing is junk, so only the bounds and equality decide.\<close>

function extend_back :: "str \<Rightarrow> str \<Rightarrow> nat \<Rightarrow> nat \<Rightarrow> block \<Rightarrow> block" where
  "extend_back a b alo blo (besti, bestj, bestsize) =
     (if alo < besti \<and> blo < bestj \<and> a ! (besti - 1) = b ! (bestj - 1)
      then extend_back a b alo blo (besti - 1, bestj - 1, bestsize + 1)
      else (besti, bestj, bestsize))"
  by pat_completeness auto
termination
  by (relation "measure (\<lambda>(a, b, alo, blo, besti, bestj, bestsize). besti)") auto

function extend_fwd :: "str \<Rightarrow> str \<Rightarrow> nat \<Rightarrow> nat \<Rightarrow> block \<Rightarrow> block" where
  "extend_fwd a b ahi bhi (besti, bestj, bestsize) =
     (if besti + bestsize < ahi \<and> bestj + bestsize < bhi
         \<and> a ! (besti + bestsize) = b ! (bestj + bestsize)
      then extend_fwd a b ahi bhi (besti, bestj, bestsize + 1)
      else (besti, bestj, bestsize))"
  by pat_completeness auto
termination
  by (relation "measure (\<lambda>(a, b, ahi, bhi, besti, bestj, bestsize). ahi - (besti + bestsize))")
     auto

declare extend_back.simps [simp del] extend_fwd.simps [simp del]

definition find_longest_match :: "str \<Rightarrow> str \<Rightarrow> nat \<Rightarrow> nat \<Rightarrow> nat \<Rightarrow> nat \<Rightarrow> block" where
  "find_longest_match a b alo ahi blo bhi =
     extend_fwd a b ahi bhi
       (extend_back a b alo blo
          (snd (fold (flm_row a b blo bhi) [alo..<ahi] (\<lambda>_. 0, (alo, blo, 0)))))"

text \<open>
  Bounds of the block found, needed for the termination of \<open>get_matching_blocks\<close>: a
  non-empty block lies inside the window of \<open>a\<close>.
\<close>

definition flm_inv :: "nat \<Rightarrow> nat \<Rightarrow> (nat \<Rightarrow> nat) \<times> block \<Rightarrow> bool" where
  "flm_inv alo n st = (case st of (j2len, (bi, bj, bs)) \<Rightarrow>
      (\<forall>j. j2len j \<le> n - alo) \<and> alo \<le> bi \<and> bi + bs \<le> n)"

lemma flm_step_inv:
  assumes "\<forall>j. j2len j \<le> i - alo" "alo \<le> i" "flm_inv alo (Suc i) st"
  shows "flm_inv alo (Suc i) (flm_step i blo bhi j2len j st)"
proof -
  obtain n2 bi bj bs where st: "st = (n2, (bi, bj, bs))" by (metis prod_cases4)
  have k: "(if j = 0 then 0 else j2len (j - 1)) + 1 \<le> Suc i - alo"
    using assms(1,2) by (auto simp: Suc_diff_le)
  show ?thesis using assms(2,3) k
    by (auto simp: st flm_inv_def flm_step_def Let_def)
qed

lemma flm_row_inv:
  assumes "flm_inv alo i st" "alo \<le> i"
  shows "flm_inv alo (Suc i) (flm_row a b blo bhi i st)"
proof -
  obtain j2len best where st: "st = (j2len, best)" by (cases st)
  have b: "\<forall>j. j2len j \<le> i - alo" using assms(1) by (auto simp: st flm_inv_def)
  have "flm_inv alo (Suc i) (fold (flm_step i blo bhi j2len) js s)"
    if "flm_inv alo (Suc i) s" for js s
    using that by (induction js arbitrary: s) (simp_all add: flm_step_inv [OF b assms(2)])
  moreover have "flm_inv alo (Suc i) (\<lambda>_. 0, best)"
    using assms by (cases best) (auto simp: st flm_inv_def)
  ultimately show ?thesis by (simp add: flm_row_def st)
qed

lemma flm_fold_inv:
  assumes "alo \<le> n"
  shows "flm_inv alo n (fold (flm_row a b blo bhi) [alo..<n] (\<lambda>_. 0, (alo, blo, 0)))"
  using assms
proof (induction n)
  case 0
  then show ?case by (simp add: flm_inv_def)
next
  case (Suc n)
  show ?case
  proof (cases "alo \<le> n")
    case True
    then show ?thesis using Suc.IH flm_row_inv by simp
  next
    case False
    then have "alo = Suc n" using Suc.prems by simp
    then show ?thesis by (simp add: flm_inv_def)
  qed
qed

lemma extend_back_bounds:
  "extend_back a b alo blo blk = (i, j, k) \<Longrightarrow> alo \<le> fst blk
     \<Longrightarrow> alo \<le> i \<and> i + k = fst blk + snd (snd blk) \<and> snd (snd blk) \<le> k"
proof (induction a b alo blo blk rule: extend_back.induct)
  case (1 a b alo blo besti bestj bestsize)
  show ?case
  proof (cases "alo < besti \<and> blo < bestj \<and> a ! (besti - 1) = b ! (bestj - 1)")
    case True
    then have "extend_back a b alo blo (besti - 1, bestj - 1, bestsize + 1) = (i, j, k)"
      using "1.prems"(1) by (subst (asm) extend_back.simps) simp
    moreover have "alo \<le> besti - 1" using True by linarith
    ultimately show ?thesis using "1.IH" [OF True] True by auto
  next
    case False
    then have "(besti, bestj, bestsize) = (i, j, k)"
      using "1.prems"(1) by (subst (asm) extend_back.simps) auto
    then show ?thesis using "1.prems"(2) by auto
  qed
qed

lemma extend_fwd_bounds:
  "extend_fwd a b ahi bhi blk = (i, j, k) \<Longrightarrow> fst blk + snd (snd blk) \<le> ahi
     \<Longrightarrow> i = fst blk \<and> i + k \<le> ahi \<and> snd (snd blk) \<le> k"
proof (induction a b ahi bhi blk rule: extend_fwd.induct)
  case (1 a b ahi bhi besti bestj bestsize)
  show ?case
  proof (cases "besti + bestsize < ahi \<and> bestj + bestsize < bhi
         \<and> a ! (besti + bestsize) = b ! (bestj + bestsize)")
    case True
    then have "extend_fwd a b ahi bhi (besti, bestj, bestsize + 1) = (i, j, k)"
      using "1.prems"(1) by (subst (asm) extend_fwd.simps) simp
    from "1.IH" [OF True this] True show ?thesis by auto
  next
    case False
    then have "(besti, bestj, bestsize) = (i, j, k)"
      using "1.prems"(1) by (subst (asm) extend_fwd.simps) auto
    then show ?thesis using "1.prems"(2) by auto
  qed
qed

lemma find_longest_match_bounds:
  assumes "find_longest_match a b alo ahi blo bhi = (i, j, k)" "k \<noteq> 0"
  shows "alo \<le> i \<and> i + k \<le> ahi"
proof (cases "alo \<le> ahi")
  case True
  obtain j2len bi bj bs where f: "fold (flm_row a b blo bhi) [alo..<ahi] (\<lambda>_. 0, (alo, blo, 0)) = (j2len, (bi, bj, bs))"
    by (metis prod_cases4)
  have inv: "alo \<le> bi \<and> bi + bs \<le> ahi"
    using flm_fold_inv [OF True, of a b blo bhi] by (simp add: f flm_inv_def)
  obtain i1 j1 k1 where eb: "extend_back a b alo blo (bi, bj, bs) = (i1, j1, k1)"
    by (metis prod_cases3)
  have b1: "alo \<le> i1 \<and> i1 + k1 = bi + bs" using extend_back_bounds [OF eb] inv by simp
  have "extend_fwd a b ahi bhi (i1, j1, k1) = (i, j, k)"
    using assms(1) by (simp add: find_longest_match_def f eb)
  from extend_fwd_bounds [OF this] b1 inv show ?thesis by simp
next
  case False
  then have "find_longest_match a b alo ahi blo bhi = (alo, blo, 0)"
    by (simp add: find_longest_match_def extend_back.simps extend_fwd.simps)
  then show ?thesis using assms by simp
qed

text \<open>
  \<open>get_matching_blocks\<close>: the longest block of the window, then the windows to its left
  and to its right. The source keeps the windows on a stack and sorts the blocks at the
  end; the list below is in that sorted order. (The source then merges adjacent blocks
  and appends a sentinel of size 0, which leaves the sum of the sizes as it is.)
\<close>

function matching_blocks :: "str \<Rightarrow> str \<Rightarrow> nat \<Rightarrow> nat \<Rightarrow> nat \<Rightarrow> nat \<Rightarrow> block list" where
  "matching_blocks a b alo ahi blo bhi =
     (case find_longest_match a b alo ahi blo bhi of (i, j, k) \<Rightarrow>
        if k = 0 then []
        else (if alo < i \<and> blo < j then matching_blocks a b alo i blo j else [])
             @ [(i, j, k)]
             @ (if i + k < ahi \<and> j + k < bhi then matching_blocks a b (i + k) ahi (j + k) bhi
                else []))"
  by pat_completeness auto
termination
proof (relation "measure (\<lambda>(a, b, alo, ahi, blo, bhi). ahi - alo)", goal_cases)
  case 1
  then show ?case by simp
next
  case (2 a b alo ahi blo bhi i y j k)
  then have "find_longest_match a b alo ahi blo bhi = (i, j, k)" by simp
  from find_longest_match_bounds [OF this] 2 show ?case by auto
next
  case (3 a b alo ahi blo bhi i y j k)
  then have "find_longest_match a b alo ahi blo bhi = (i, j, k)" by simp
  from find_longest_match_bounds [OF this] 3 show ?case by auto
qed

declare matching_blocks.simps [simp del]

definition ratio :: "str \<Rightarrow> str \<Rightarrow> rat" where
  "ratio a b =
     (let matches = sum_list (map (\<lambda>(i, j, k). k) (matching_blocks a b 0 (length a) 0 (length b)));
          len = length a + length b
      in if len \<noteq> 0 then 2 * of_nat matches / of_nat len else 1)"

definition calculate_similarity :: "str \<Rightarrow> str \<Rightarrow> rat" where
  "calculate_similarity str1 str2 = ratio (lower str1) (lower str2)"

section \<open>The search index (\<open>ipo_search_engine.py\<close>)\<close>

text \<open>
  A company is a JSON object with the keys of the data model; \<open>category\<close> is read with
  \<open>get\<close> in the source and may be missing. \<open>match_score\<close> is the key that \<open>search\<close>
  adds to its copies: \<open>None\<close> is a dictionary without that key. (\<open>id_key\<close> is the key
  \<open>id\<close>.) Scores are Python floats; the model computes with the exact rationals, so
  \<open>0.6\<close> is \<open>3/5\<close> and \<open>2.0 * matches / length\<close> is the exact quotient.
\<close>

record company =
  name :: str
  slug :: str
  id_key :: str
  category :: "str option"
  url :: str
  match_score :: "rat option"

text \<open>
  Dictionaries are objects: \<open>self.companies\<close> is a list of references into a store, and
  \<open>company.copy()\<close> allocates. The store is a list, a reference is an index into it and
  a new object goes to the end.
\<close>

record engine =
  companies :: "nat list"
  heap :: "company list"

datatype error = KeyError | ValueError | AttributeError

text \<open>Lines 66 to 70: the ratio, raised to 0.6 when the lowered query is in the lowered name.\<close>

definition score_of :: "str \<Rightarrow> str \<Rightarrow> rat" where
  "score_of query nm =
     (let score = calculate_similarity query nm
      in if sublist (lower query) (lower nm) then max score (3 / 5) else score)"

text \<open>The loop of lines 64 to 75, with the store and the result list as accumulators.\<close>

fun search_loop :: "str \<Rightarrow> rat \<Rightarrow> nat list \<Rightarrow> company list \<Rightarrow> nat list
    \<Rightarrow> company list \<times> nat list" where
  "search_loop query min_score [] h results = (h, results)"
| "search_loop query min_score (c # cs) h results =
     (let company = h ! c;
          score = score_of query (name company)
      in if min_score \<le> score
         then (let r = length h;
                   h1 = h @ [company];
                   h2 = h1[r := (h1 ! r)\<lparr>match_score := Some score\<rparr>]
               in search_loop query min_score cs h2 (results @ [r]))
         else search_loop query min_score cs h results)"

text \<open>
  \<open>results.sort(key=lambda x: x['match_score'], reverse=True)\<close>. The keys are read first
  (a missing key raises \<open>KeyError\<close>); CPython then reverses the list, sorts it stably in
  ascending order of the keys and reverses it again.
\<close>

definition sort_by_score_desc :: "company list \<Rightarrow> nat list \<Rightarrow> error + nat list" where
  "sort_by_score_desc h results =
     (let keys = map (\<lambda>r. match_score (h ! r)) results
      in if None \<in> set keys then Inl KeyError
         else Inr (map snd (rev (sort_key fst (rev (zip (map the keys) results))))))"

text \<open>\<open>xs[:n]\<close>: a negative \<open>n\<close> counts from the end.\<close>

definition slice_to :: "int \<Rightarrow> 'a list \<Rightarrow> 'a list" where
  "slice_to n xs = (if 0 \<le> n then take (nat n) xs else take (length xs - nat (- n)) xs)"

definition search :: "engine \<Rightarrow> str \<Rightarrow> int \<Rightarrow> rat \<Rightarrow> (error + nat list) \<times> engine" where
  "search e query limit min_score =
     (if query = [] \<or> companies e = [] then (Inr [], e)
      else
        (case search_loop query min_score (companies e) (heap e) [] of
           (h, results) \<Rightarrow>
             (case sort_by_score_desc h results of
                Inl err \<Rightarrow> (Inl err, e\<lparr>heap := h\<rparr>)
              | Inr sorted_results \<Rightarrow> (Inr (slice_to limit sorted_results), e\<lparr>heap := h\<rparr>))))"

text \<open>The companies a result list refers to.\<close>

definition deref :: "engine \<Rightarrow> nat list \<Rightarrow> company list" where
  "deref e rs = map (\<lambda>r. heap e ! r) rs"

text \<open>A reference of a well-formed engine points into the store.\<close>

definition wf_engine :: "engine \<Rightarrow> bool" where
  "wf_engine e = list_all (\<lambda>c. c < length (heap e)) (companies e)"

text \<open>
  What the claims about \<open>search\<close> speak of: each company paired with its score, the pairs
  that pass the threshold in the descending stable order, and the copy that carries the
  score under \<open>match_score\<close>.
\<close>

definition scored :: "str \<Rightarrow> company list \<Rightarrow> (rat \<times> company) list" where
  "scored query cs = map (\<lambda>x. (score_of query (name x), x)) cs"

definition ranked :: "str \<Rightarrow> rat \<Rightarrow> company list \<Rightarrow> (rat \<times> company) list" where
  "ranked query min_score cs =
     rev (sort_key fst (rev (filter (\<lambda>p. min_score \<le> fst p) (scored query cs))))"

definition with_score :: "rat \<times> company \<Rightarrow> company" where
  "with_score p = (snd p)\<lparr>match_score := Some (fst p)\<rparr>"

text \<open>The collection of the ranking example: two companies, of which only the name matters.\<close>

definition pharma_engine :: engine where
  "pharma_engine =
     \<lparr>companies = [0, 1],
      heap = [\<lparr>name = T ''Sudeep Pharma'', slug = [], id_key = T ''1'', category = None,
                url = [], match_score = None\<rparr>,
              \<lparr>name = T ''Suyog Pharma'', slug = [], id_key = T ''2'', category = None,
                url = [], match_score = None\<rparr>]\<rparr>"

subsection \<open>The loop, the sort and the result of \<open>search\<close>\<close>

lemma search_loop_inv:
  assumes "list_all (\<lambda>c. c < length h) cs"
  shows "search_loop query min_score cs h rs =
           (h @ map with_score (filter (\<lambda>p. min_score \<le> fst p) (scored query (map ((!) h) cs))),
            rs @ [length h ..< length h + length (filter (\<lambda>p. min_score \<le> fst p) (scored query (map ((!) h) cs)))])"
  using assms
proof (induction cs arbitrary: h rs)
  case Nil
  then show ?case by (simp add: scored_def)
next
  case (Cons c cs)
  let ?x = "h ! c"
  let ?s = "score_of query (name ?x)"
  let ?F = "filter (\<lambda>p. min_score \<le> fst p) (scored query (map ((!) h) cs))"
  show ?case
  proof (cases "min_score \<le> ?s")
    case True
    let ?h2 = "h @ [?x\<lparr>match_score := Some ?s\<rparr>]"
    have all: "list_all (\<lambda>c. c < length ?h2) cs"
      using Cons.prems by (auto simp: list_all_iff)
    have same: "map ((!) ?h2) cs = map ((!) h) cs"
      using Cons.prems by (auto simp: list_all_iff nth_append)
    have step: "search_loop query min_score (c # cs) h rs
                  = search_loop query min_score cs ?h2 (rs @ [length h])"
      using True by (simp add: Let_def)
    have ih: "search_loop query min_score cs ?h2 (rs @ [length h])
                = (?h2 @ map with_score ?F,
                   (rs @ [length h]) @ [length ?h2 ..< length ?h2 + length ?F])"
      using Cons.IH [OF all, of "rs @ [length h]"] by (simp only: same)
    have f: "filter (\<lambda>p. min_score \<le> fst p) (scored query (map ((!) h) (c # cs)))
               = (?s, ?x) # ?F"
      using True by (simp add: scored_def)
    have u: "[length h ..< length h + Suc (length ?F)]
               = length h # [Suc (length h) ..< Suc (length h) + length ?F]"
      by (simp add: upt_conv_Cons del: upt_Suc)
    show ?thesis
      unfolding step ih f by (simp add: with_score_def upt_conv_Cons del: upt_Suc)
  next
    case False
    have all: "list_all (\<lambda>c. c < length h) cs" using Cons.prems by simp
    show ?thesis using False Cons.IH [OF all] by (simp add: Let_def scored_def)
  qed
qed


lemma ranked_props:
  "mset (ranked query min_score cs) = mset (filter (\<lambda>p. min_score \<le> fst p) (scored query cs))"
  "sorted (rev (map fst (ranked query min_score cs)))"
  "filter (\<lambda>p. fst p = k) (ranked query min_score cs)
     = filter (\<lambda>p. fst p = k) (filter (\<lambda>p. min_score \<le> fst p) (scored query cs))"
proof -
  let ?F = "filter (\<lambda>p. min_score \<le> fst p) (scored query cs)"
  show "mset (ranked query min_score cs) = mset ?F" by (simp add: ranked_def)
  show "sorted (rev (map fst (ranked query min_score cs)))"
    by (simp add: ranked_def rev_map [symmetric])
  have "filter (\<lambda>p. fst p = k) (sort_key fst (rev ?F)) = filter (\<lambda>p. fst p = k) (rev ?F)"
    by (rule sort_key_stable)
  then show "filter (\<lambda>p. fst p = k) (ranked query min_score cs) = filter (\<lambda>p. fst p = k) ?F"
    by (simp add: ranked_def rev_filter [symmetric])
qed

lemma sort_by_score_desc_fresh:
  assumes "length ps = n"
  shows "sort_by_score_desc (h @ map with_score ps) [length h ..< length h + n]
           = Inr (map snd (rev (sort_key fst (rev (zip (map fst ps) [length h ..< length h + n])))))"
proof -
  have "map (\<lambda>r. match_score ((h @ map with_score ps) ! r)) [length h ..< length h + n]
          = map (\<lambda>p. Some (fst p)) ps"
    using assms by (auto simp: list_eq_iff_nth_eq nth_append with_score_def)
  then show ?thesis by (auto simp: sort_by_score_desc_def Let_def comp_def)
qed

lemma insort_key_apsnd:
  "insort_key fst (apsnd g x) (map (apsnd g) ys) = map (apsnd g) (insort_key fst x ys)"
  by (induction ys) auto

lemma sort_key_apsnd: "sort_key fst (map (apsnd g) xs) = map (apsnd g) (sort_key fst xs)"
  by (induction xs) (simp_all add: insort_key_apsnd)

lemma slice_to_map: "slice_to n (map f xs) = map f (slice_to n xs)"
  by (simp add: slice_to_def take_map)

lemma set_slice_to: "set (slice_to n xs) \<subseteq> set xs"
  by (auto simp: slice_to_def dest: in_set_takeD)

lemma sorted_fresh_contents:
  fixes ps :: "(rat \<times> company) list" and h :: "company list"
  defines "n \<equiv> length ps"
  defines "Z \<equiv> zip (map fst ps) [length h ..< length h + n]"
  defines "X \<equiv> rev (sort_key fst (rev Z))"
  shows "map ((!) (h @ map with_score ps)) (map snd X) = map with_score (rev (sort_key fst (rev ps)))"
    and "set (map snd X) \<subseteq> {length h ..< length h + n}"
proof -
  define g where "g r = snd (ps ! (r - length h))" for r
  have Zps: "map (apsnd g) Z = ps"
  proof (rule nth_equalityI)
    show "length (map (apsnd g) Z) = length ps" by (simp add: Z_def n_def)
  next
    fix i assume "i < length (map (apsnd g) Z)"
    then have i: "i < length ps" by (simp add: Z_def n_def)
    then have "Z ! i = (fst (ps ! i), length h + i)" by (simp add: Z_def n_def)
    then show "map (apsnd g) Z ! i = ps ! i"
      using i by (simp add: Z_def n_def g_def)
  qed
  have "map (apsnd g) X = rev (map (apsnd g) (sort_key fst (rev Z)))"
    by (simp only: X_def rev_map)
  also have "\<dots> = rev (sort_key fst (map (apsnd g) (rev Z)))"
    by (simp only: sort_key_apsnd)
  also have "\<dots> = rev (sort_key fst (rev ps))"
    by (simp only: rev_map [symmetric] Zps)
  finally have X: "map (apsnd g) X = rev (sort_key fst (rev ps))" .
  have setX: "set X = set Z" by (simp add: X_def)
  have pt: "(h @ map with_score ps) ! snd z = with_score (apsnd g z)" if "z \<in> set X" for z
  proof -
    from that obtain i where i: "i < n" "z = (fst (ps ! i), length h + i)"
      unfolding setX Z_def n_def by (auto simp: set_zip)
    then show ?thesis by (simp add: nth_append g_def with_score_def n_def)
  qed
  have "map ((!) (h @ map with_score ps)) (map snd X) = map with_score (map (apsnd g) X)"
    using pt by simp
  then show "map ((!) (h @ map with_score ps)) (map snd X) = map with_score (rev (sort_key fst (rev ps)))"
    by (simp only: X)
  show "set (map snd X) \<subseteq> {length h ..< length h + n}"
    unfolding set_map setX Z_def n_def by (auto simp: set_zip)
qed

lemma search_result:
  assumes wf: "wf_engine e" and q: "query \<noteq> []"
  shows "\<exists>rs new. search e query limit min_score = (Inr rs, e\<lparr>heap := heap e @ new\<rparr>)
          \<and> set rs \<subseteq> {length (heap e) ..< length (heap e) + length new}
          \<and> map ((!) (heap e @ new)) rs
              = slice_to limit (map with_score (ranked query min_score (deref e (companies e))))"
proof (cases "companies e = []")
  case True
  then have "search e query limit min_score = (Inr [], e\<lparr>heap := heap e @ []\<rparr>)"
    by (simp add: search_def)
  moreover have "slice_to limit (map with_score (ranked query min_score (deref e (companies e)))) = []"
    using True by (simp add: deref_def ranked_def scored_def slice_to_def)
  ultimately show ?thesis by (intro exI [of _ "[]"]) simp
next
  case False
  let ?h = "heap e"
  let ?ps = "filter (\<lambda>p. min_score \<le> fst p) (scored query (map ((!) ?h) (companies e)))"
  let ?Z = "zip (map fst ?ps) [length ?h ..< length ?h + length ?ps]"
  let ?X = "rev (sort_key fst (rev ?Z))"
  have loop: "search_loop query min_score (companies e) ?h []
                = (?h @ map with_score ?ps, [length ?h ..< length ?h + length ?ps])"
    using search_loop_inv [of ?h "companies e" query min_score "[]"] wf
    by (simp add: wf_engine_def)
  have srt: "sort_by_score_desc (?h @ map with_score ?ps) [length ?h ..< length ?h + length ?ps]
               = Inr (map snd ?X)"
    by (rule sort_by_score_desc_fresh) simp
  have s: "search e query limit min_score
             = (Inr (slice_to limit (map snd ?X)), e\<lparr>heap := ?h @ map with_score ?ps\<rparr>)"
    using False q by (simp add: search_def loop srt)
  have c: "map ((!) (?h @ map with_score ?ps)) (slice_to limit (map snd ?X))
             = slice_to limit (map with_score (ranked query min_score (deref e (companies e))))"
  proof -
    have "map ((!) (?h @ map with_score ?ps)) (slice_to limit (map snd ?X))
            = slice_to limit (map ((!) (?h @ map with_score ?ps)) (map snd ?X))"
      by (simp only: slice_to_map)
    also have "\<dots> = slice_to limit (map with_score (rev (sort_key fst (rev ?ps))))"
      by (simp only: sorted_fresh_contents(1))
    finally show ?thesis by (simp only: ranked_def deref_def)
  qed
  have "set (slice_to limit (map snd ?X)) \<subseteq> {length ?h ..< length ?h + length ?ps}"
    using set_slice_to sorted_fresh_contents(2) by (rule subset_trans)
  with s c show ?thesis
    by (intro exI [of _ "slice_to limit (map snd ?X)"] exI [of _ "map with_score ?ps"]) simp
qed

lemma search_no_query: "search e [] limit min_score = (Inr [], e)"
  by (simp add: search_def)

subsection \<open>Claims about \<open>search\<close>\<close>

text \<open>
  Claim C1, as the code has it. For a non-empty query and a limit that is not negative,
  \<open>search\<close> returns copies of the companies whose score is at least \<open>min_score\<close>, each
  carrying its score, in an order \<open>S\<close> that is a rearrangement of those companies,
  descending in the score, and stable: the companies of any one score keep the order of
  the collection. The list is cut to its first \<open>limit\<close> entries after the sort.
\<close>

theorem search_ranked:
  assumes "wf_engine e" and "query \<noteq> []" and "0 \<le> limit"
  shows "\<exists>rs e' S.
           search e query limit min_score = (Inr rs, e')
         \<and> deref e' rs = map with_score (take (nat limit) S)
         \<and> mset S = mset (filter (\<lambda>p. min_score \<le> fst p) (scored query (deref e (companies e))))
         \<and> sorted (rev (map fst S))
         \<and> (\<forall>k. filter (\<lambda>p. fst p = k) S
                 = filter (\<lambda>p. fst p = k)
                     (filter (\<lambda>p. min_score \<le> fst p) (scored query (deref e (companies e)))))"
proof -
  let ?S = "ranked query min_score (deref e (companies e))"
  from search_result [OF assms(1,2), of limit min_score] obtain rs new where
    s: "search e query limit min_score = (Inr rs, e\<lparr>heap := heap e @ new\<rparr>)" and
    c: "map ((!) (heap e @ new)) rs = slice_to limit (map with_score ?S)"
    by blast
  have "deref (e\<lparr>heap := heap e @ new\<rparr>) rs = map with_score (take (nat limit) ?S)"
    using c assms(3) by (simp add: deref_def slice_to_def take_map)
  with s show ?thesis
    using ranked_props(1) [of query min_score "deref e (companies e)"]
      ranked_props(2) [of query min_score "deref e (companies e)"]
      ranked_props(3) [of _ query min_score "deref e (companies e)"]
    by blast
qed

text \<open>The ranking theorem at the two-company collection, query \<open>Pharma\<close>, limit 1.\<close>

theorem search_ranked_witness:
  "wf_engine pharma_engine \<and> T ''Pharma'' \<noteq> [] \<and> (0::int) \<le> 1 \<and>
   (\<exists>rs e' S.
           search pharma_engine (T ''Pharma'') 1 (3 / 10) = (Inr rs, e')
         \<and> deref e' rs = map with_score (take (nat 1) S)
         \<and> mset S = mset (filter (\<lambda>p. 3 / 10 \<le> fst p)
                              (scored (T ''Pharma'') (deref pharma_engine (companies pharma_engine))))
         \<and> sorted (rev (map fst S))
         \<and> (\<forall>k. filter (\<lambda>p. fst p = k) S
                 = filter (\<lambda>p. fst p = k)
                     (filter (\<lambda>p. 3 / 10 \<le> fst p)
                        (scored (T ''Pharma'') (deref pharma_engine (companies pharma_engine))))))"
proof -
  have w: "wf_engine pharma_engine" by (simp add: wf_engine_def pharma_engine_def)
  have q: "T ''Pharma'' \<noteq> []" by (simp add: T_def)
  have l: "(0::int) \<le> 1" by simp
  show ?thesis using search_ranked [OF w q l, of "3 / 10"] w q by simp
qed

text \<open>
  Claim C1 as stated covers every query string. The empty query is answered by the guard
  of line 59 with the empty list, although every company scores 0.6 against it (the empty
  string is a substring of every name) and so passes the threshold 0.3.
\<close>

theorem search_empty_query_counterexample:
  "fst (search pharma_engine [] 10 (3 / 10)) = Inr []
   \<and> filter (\<lambda>p. 3 / 10 \<le> fst p) (scored [] (deref pharma_engine (companies pharma_engine)))
       = [(3 / 5, heap pharma_engine ! 0), (3 / 5, heap pharma_engine ! 1)]"
  by code_simp

text \<open>
  Claim C2. When the lowered query is a contiguous part of the lowered name, the score is
  at least 0.6. On the collection of Sudeep Pharma and Suyog Pharma the query \<open>Sudeep\<close>
  (limit 10, threshold 0.3) ranks Sudeep Pharma first, with the score 12/19, which is at
  least 0.6, and Suyog Pharma second, with the score 1/3.
\<close>

theorem substring_boost:
  "(sublist (lower query) (lower nm) \<longrightarrow> 3 / 5 \<le> score_of query nm)
   \<and> (case search pharma_engine (T ''Sudeep'') 10 (3 / 10) of
          (Inr rs, e') \<Rightarrow> map (\<lambda>c. (name c, match_score c)) (deref e' rs)
              = [(T ''Sudeep Pharma'', Some (12 / 19)), (T ''Suyog Pharma'', Some (1 / 3))]
        | (Inl err, e') \<Rightarrow> False)
   \<and> (3 / 5 :: rat) \<le> 12 / 19"
proof (intro conjI)
  show "sublist (lower query) (lower nm) \<longrightarrow> 3 / 5 \<le> score_of query nm"
    by (simp add: score_of_def Let_def)
  show "case search pharma_engine (T ''Sudeep'') 10 (3 / 10) of
          (Inr rs, e') \<Rightarrow> map (\<lambda>c. (name c, match_score c)) (deref e' rs)
              = [(T ''Sudeep Pharma'', Some (12 / 19)), (T ''Suyog Pharma'', Some (1 / 3))]
        | (Inl err, e') \<Rightarrow> False"
    by code_simp
  show "(3 / 5 :: rat) \<le> 12 / 19" by simp
qed

text \<open>The floor at the query \<open>Sudeep\<close> and the name \<open>Sudeep Pharma\<close>.\<close>

theorem substring_boost_witness:
  "sublist (lower (T ''Sudeep'')) (lower (T ''Sudeep Pharma''))
   \<and> 3 / 5 \<le> score_of (T ''Sudeep'') (T ''Sudeep Pharma'')"
proof -
  have h: "sublist (lower (T ''Sudeep'')) (lower (T ''Sudeep Pharma''))" by code_simp
  from substring_boost [of "T ''Sudeep''" "T ''Sudeep Pharma''"] h show ?thesis by blast
qed

text \<open>
  Claim C10. A search leaves the collection as it was: the list of references and every
  stored company, so no stored company gains the key \<open>match_score\<close>. Every returned
  reference is a new object, none of the collection's, and overwriting the object behind
  it leaves the stored companies as they were. The same search, run again, returns
  results with the same contents.
\<close>

theorem search_frame:
  assumes "wf_engine e"
  shows "\<exists>rs e'.
           search e query limit min_score = (Inr rs, e')
         \<and> companies e' = companies e
         \<and> deref e' (companies e') = deref e (companies e)
         \<and> (\<forall>r \<in> set rs. r \<notin> set (companies e')
               \<and> (\<forall>v. deref (e'\<lparr>heap := (heap e')[r := v]\<rparr>) (companies e')
                       = deref e (companies e)))
         \<and> (\<exists>rs2 e2. search e' query limit min_score = (Inr rs2, e2)
                      \<and> deref e2 rs2 = deref e' rs)"
proof (cases "query = []")
  case True
  then show ?thesis by (simp add: search_no_query deref_def)
next
  case False
  let ?R = "slice_to limit (map with_score (ranked query min_score (deref e (companies e))))"
  from search_result [OF assms False, of limit min_score] obtain rs new where
    s: "search e query limit min_score = (Inr rs, e\<lparr>heap := heap e @ new\<rparr>)" and
    f: "set rs \<subseteq> {length (heap e) ..< length (heap e) + length new}" and
    c: "map ((!) (heap e @ new)) rs = ?R"
    by blast
  let ?e' = "e\<lparr>heap := heap e @ new\<rparr>"
  have old: "c < length (heap e)" if "c \<in> set (companies e)" for c
    using assms that by (simp add: wf_engine_def list_all_iff)
  have same: "deref ?e' (companies ?e') = deref e (companies e)"
    using old by (simp add: deref_def nth_append)
  have wf': "wf_engine ?e'"
    using assms by (auto simp: wf_engine_def list_all_iff)
  have fresh: "r \<notin> set (companies ?e')
      \<and> (\<forall>v. deref (?e'\<lparr>heap := (heap ?e')[r := v]\<rparr>) (companies ?e') = deref e (companies e))"
    if "r \<in> set rs" for r
  proof -
    have r: "length (heap e) \<le> r" using that f by auto
    then have "r \<notin> set (companies e)" using old by fastforce
    moreover have "(heap e @ new)[r := v] ! c = heap e ! c" if "c \<in> set (companies e)" for c v
      using old [OF that] r by (simp add: nth_append)
    ultimately show ?thesis by (simp add: deref_def)
  qed
  from search_result [OF wf' False, of limit min_score] obtain rs2 new2 where
    s2: "search ?e' query limit min_score = (Inr rs2, ?e'\<lparr>heap := heap ?e' @ new2\<rparr>)" and
    c2: "map ((!) (heap ?e' @ new2)) rs2
           = slice_to limit (map with_score (ranked query min_score (deref ?e' (companies ?e'))))"
    by blast
  have "map ((!) (heap ?e' @ new2)) rs2 = map ((!) (heap e @ new)) rs"
    unfolding c c2 same ..
  then have "deref (?e'\<lparr>heap := heap ?e' @ new2\<rparr>) rs2 = deref ?e' rs"
    by (simp add: deref_def)
  with s s2 same fresh show ?thesis by (intro exI [of _ rs] exI [of _ ?e']) auto
qed

text \<open>The frame theorem at the two-company collection and the query \<open>Sudeep\<close>.\<close>

theorem search_frame_witness:
  "wf_engine pharma_engine \<and>
   (\<exists>rs e'.
           search pharma_engine (T ''Sudeep'') 10 (3 / 10) = (Inr rs, e')
         \<and> companies e' = companies pharma_engine
         \<and> deref e' (companies e') = deref pharma_engine (companies pharma_engine)
         \<and> (\<forall>r \<in> set rs. r \<notin> set (companies e')
               \<and> (\<forall>v. deref (e'\<lparr>heap := (heap e')[r := v]\<rparr>) (companies e')
                       = deref pharma_engine (companies pharma_engine)))
         \<and> (\<exists>rs2 e2. search e' (T ''Sudeep'') 10 (3 / 10) = (Inr rs2, e2)
                      \<and> deref e2 rs2 = deref e' rs))"
proof -
  have w: "wf_engine pharma_engine" by (simp add: wf_engine_def pharma_engine_def)
  show ?thesis using search_frame [OF w, of "T ''Sudeep''" 10 "3 / 10"] w by simp
qed

section \<open>The company collector (\<open>ipo_index_builder.py\<close>)\<close>

text \<open>
  The pages come from the network. A fetched page is the list of what
  \<open>extract_company_from_link\<close> returns for each of its links, in document order
  (\<open>None\<close> for a link it rejects); a page that could not be fetched is \<open>None\<close>.

  The loop of \<open>scrape_category\<close> (lines 99 to 107): a company whose id was already seen
  on this page is dropped, any other one gets the category and is appended.
\<close>

fun scrape_loop :: "str \<Rightarrow> company option list \<Rightarrow> str set \<Rightarrow> company list \<Rightarrow> company list" where
  "scrape_loop category_name [] seen cs = cs"
| "scrape_loop category_name (None # links) seen cs = scrape_loop category_name links seen cs"
| "scrape_loop category_name (Some c # links) seen cs =
     (if id_key c \<notin> seen
      then scrape_loop category_name links (insert (id_key c) seen)
             (cs @ [c\<lparr>category := Some category_name\<rparr>])
      else scrape_loop category_name links seen cs)"

definition scrape_category :: "str \<Rightarrow> company option list option \<Rightarrow> company list" where
  "scrape_category category_name page =
     (case page of None \<Rightarrow> [] | Some links \<Rightarrow> scrape_loop category_name links {} [])"

definition CATEGORIES :: "(str \<times> str) list" where
  "CATEGORIES =
     [(T ''mainboard'', T ''/list-of-mainboard-ipos''),
      (T ''sme'', T ''/list-of-sme-ipos''),
      (T ''upcoming'', T ''/upcoming-mainboard-ipo'')]"

text \<open>\<open>all_companies\<close> after the loop of lines 120 to 125: the categories' lists, in order.\<close>

definition all_companies :: "(str \<Rightarrow> company option list option) \<Rightarrow> company list" where
  "all_companies fetch = concat (map (\<lambda>(nm, path). scrape_category nm (fetch path)) CATEGORIES)"

text \<open>
  Lines 128 to 132: \<open>unique_companies[company['id']] = company\<close> for each company, then
  the dictionary's values. A Python dictionary keeps a key at the place of its first
  insertion and replaces the value on a later one, as \<open>AList.update\<close> does.
\<close>

definition unique_by_id :: "company list \<Rightarrow> company list" where
  "unique_by_id cs = map snd (fold (\<lambda>c d. AList.update (id_key c) c d) cs [])"

definition build_index :: "(str \<Rightarrow> company option list option) \<Rightarrow> company list" where
  "build_index fetch = unique_by_id (all_companies fetch)"

text \<open>Two categories list a company with the id 7 under different names.\<close>

definition dup_fetch :: "str \<Rightarrow> company option list option" where
  "dup_fetch path =
     (if path = T ''/list-of-mainboard-ipos''
      then Some [Some \<lparr>name = T ''Alpha'', slug = T ''alpha-ipo'', id_key = T ''7'', category = None,
                       url = T ''https://www.ipoplatform.com/ipo/alpha-ipo/7'', match_score = None\<rparr>,
                 None,
                 Some \<lparr>name = T ''Beta'', slug = T ''beta-ipo'', id_key = T ''8'', category = None,
                       url = T ''https://www.ipoplatform.com/ipo/beta-ipo/8'', match_score = None\<rparr>]
      else if path = T ''/upcoming-mainboard-ipo''
      then Some [Some \<lparr>name = T ''Alpha Ltd'', slug = T ''alpha-ltd-ipo'', id_key = T ''7'', category = None,
                       url = T ''https://www.ipoplatform.com/ipo/alpha-ltd-ipo/7'', match_score = None\<rparr>]
      else None)"

subsection \<open>The dictionary built by \<open>build_index\<close>\<close>

lemma fold_update_distinct:
  "distinct (map fst d) \<Longrightarrow> distinct (map fst (fold (\<lambda>c d. AList.update (id_key c) c d) cs d))"
  by (induction cs arbitrary: d) (simp_all add: distinct_update)

lemma fold_update_keys:
  "fst ` set (fold (\<lambda>c d. AList.update (id_key c) c d) cs d) = fst ` set d \<union> id_key ` set cs"
  by (induction cs arbitrary: d) (auto simp: dom_update [simplified dom_map_of_conv_image_fst])

lemma fold_update_lookup:
  "map_of (fold (\<lambda>c d. AList.update (id_key c) c d) cs d) k
     = (case filter (\<lambda>x. id_key x = k) cs of [] \<Rightarrow> map_of d k | x # xs \<Rightarrow> Some (last (x # xs)))"
proof (induction cs arbitrary: d)
  case Nil
  then show ?case by simp
next
  case (Cons c cs)
  show ?case
    by (simp add: Cons.IH update_conv' split: list.splits)
qed

text \<open>
  Claim C9. The collection that \<open>build_index\<close> returns has no two entries with the same
  id, it has an entry for exactly the ids of the companies fed in, and the entry of an id
  is the last company fed in with that id.
\<close>

theorem build_index_unique:
  "distinct (map id_key (build_index fetch))
   \<and> set (map id_key (build_index fetch)) = set (map id_key (all_companies fetch))
   \<and> (\<forall>c \<in> set (build_index fetch).
         c = last (filter (\<lambda>x. id_key x = id_key c) (all_companies fetch)))"
proof -
  let ?cs = "all_companies fetch"
  let ?d = "fold (\<lambda>c d. AList.update (id_key c) c d) ?cs []"
  have dist: "distinct (map fst ?d)" by (rule fold_update_distinct) simp
  have ent: "id_key c = k \<and> c = last (filter (\<lambda>x. id_key x = k) ?cs)" if "(k, c) \<in> set ?d" for k c
  proof -
    have "map_of ?d k = Some c" using dist that by simp
    then have f: "filter (\<lambda>x. id_key x = k) ?cs \<noteq> []" and l: "c = last (filter (\<lambda>x. id_key x = k) ?cs)"
      by (auto simp: fold_update_lookup split: list.splits)
    from last_in_set [OF f] l show ?thesis by auto
  qed
  then have fs: "map id_key (map snd ?d) = map fst ?d"
    by (auto simp: list_eq_iff_nth_eq)
  have 1: "distinct (map id_key (build_index fetch))"
    using dist by (simp only: build_index_def unique_by_id_def fs)
  have 2: "set (map id_key (build_index fetch)) = set (map id_key ?cs)"
    using fold_update_keys [of ?cs "[]"] by (simp only: build_index_def unique_by_id_def fs) simp
  have 3: "\<forall>c \<in> set (build_index fetch). c = last (filter (\<lambda>x. id_key x = id_key c) ?cs)"
    using ent by (auto simp: build_index_def unique_by_id_def)
  from 1 2 3 show ?thesis by blast
qed

text \<open>
  At the two categories above: the first entry of the collection has the id 7 and is the
  later of the two companies with that id.
\<close>

theorem build_index_unique_witness:
  "hd (build_index dup_fetch) \<in> set (build_index dup_fetch)
   \<and> hd (build_index dup_fetch)
       = last (filter (\<lambda>x. id_key x = id_key (hd (build_index dup_fetch))) (all_companies dup_fetch))
   \<and> distinct (map id_key (build_index dup_fetch))
   \<and> map name (build_index dup_fetch) = [T ''Alpha Ltd'', T ''Beta'']
   \<and> map name (all_companies dup_fetch) = [T ''Alpha'', T ''Beta'', T ''Alpha Ltd'']"
proof -
  have b: "map name (build_index dup_fetch) = [T ''Alpha Ltd'', T ''Beta'']" by code_simp
  have a: "map name (all_companies dup_fetch) = [T ''Alpha'', T ''Beta'', T ''Alpha Ltd'']"
    by code_simp
  from b have "build_index dup_fetch \<noteq> []" by auto
  then have h: "hd (build_index dup_fetch) \<in> set (build_index dup_fetch)" by simp
  with a b show ?thesis using build_index_unique [of dup_fetch] by blast
qed

section \<open>The field extraction engine (\<open>ipo_data_extractor.py\<close>)\<close>

subsection \<open>The text normalizer\<close>

text \<open>
  The white space of \<open>str.strip()\<close> and of \<open>\s\<close> in a \<open>str\<close> pattern: the code points
  for which \<open>str.isspace()\<close> holds.
\<close>

definition is_space :: "nat \<Rightarrow> bool" where
  "is_space c =
     (c \<in> set [9, 10, 11, 12, 13, 28, 29, 30, 31, 32, 133, 160, 5760, 8232, 8233, 8239, 8287, 12288]
      \<or> (8192 \<le> c \<and> c \<le> 8202))"

definition strip :: "str \<Rightarrow> str" where
  "strip s = rev (dropWhile is_space (rev (dropWhile is_space s)))"

text \<open>\<open>re.sub(r'\s+', ' ', s)\<close>: every maximal run of white space becomes one space.\<close>

function collapse_ws :: "str \<Rightarrow> str" where
  "collapse_ws [] = []"
| "collapse_ws (c # cs) =
     (if is_space c then 32 # collapse_ws (dropWhile is_space cs) else c # collapse_ws cs)"
  by pat_completeness auto
termination
  by (relation "measure length") (auto simp: length_dropWhile_le less_Suc_eq_le)

text \<open>
  The placeholder of line 60, as the source file has it: an opening bracket, the code
  points U+201A, U+00F3, U+00E8 and a closing bracket. \<open>re.sub\<close> with this literal
  pattern and the empty replacement removes its occurrences from left to right, each
  search starting after the last removed one.
\<close>

definition PLACEHOLDER :: str where
  "PLACEHOLDER = [91, 8218, 243, 232, 93]"

function remove_placeholder :: "str \<Rightarrow> str" where
  "remove_placeholder [] = []"
| "remove_placeholder (c # cs) =
     (if prefix PLACEHOLDER (c # cs) then remove_placeholder (drop (length PLACEHOLDER) (c # cs))
      else c # remove_placeholder cs)"
  by pat_completeness auto
termination
  by (relation "measure length") (auto simp: PLACEHOLDER_def)

declare collapse_ws.simps [simp del] remove_placeholder.simps [simp del]

text \<open>\<open>_clean_text\<close>; \<open>if not text\<close> holds for \<open>None\<close> and for the empty string.\<close>

definition clean_text :: "str option \<Rightarrow> str" where
  "clean_text t =
     (case t of
        None \<Rightarrow> []
      | Some s \<Rightarrow> if s = [] then [] else strip (remove_placeholder (collapse_ws (strip s))))"

lemma strip_ends:
  assumes "strip s \<noteq> []"
  shows "\<not> is_space (hd (strip s)) \<and> \<not> is_space (last (strip s))"
proof -
  let ?d = "dropWhile is_space s"
  let ?r = "dropWhile is_space (rev ?d)"
  have r: "?r \<noteq> []" using assms by (simp add: strip_def)
  have d: "?d \<noteq> []"
  proof
    assume a: "?d = []"
    have "?r = dropWhile is_space (rev [])" by (simp only: a)
    with r show False by simp
  qed
  have "last (strip s) = hd ?r" using r by (simp add: strip_def last_rev)
  moreover have "\<not> is_space (hd ?r)" using r by (rule hd_dropWhile)
  moreover have "hd (strip s) = last ?r" using r by (simp add: strip_def hd_rev)
  moreover have "last ?r = last (rev ?d)"
    using r by (metis dropWhile_eq_Nil_conv last_appendR takeWhile_dropWhile_id)
  moreover have "last (rev ?d) = hd ?d" using d by (simp add: last_rev)
  moreover have "\<not> is_space (hd ?d)" using d by (rule hd_dropWhile)
  ultimately show ?thesis by simp
qed

lemma clean_text_trimmed:
  "clean_text t \<noteq> [] \<Longrightarrow> \<not> is_space (hd (clean_text t)) \<and> \<not> is_space (last (clean_text t))"
  by (auto simp: clean_text_def strip_ends split: option.splits if_splits)

lemma clean_text_absent: "clean_text None = []" "clean_text (Some []) = []"
  by (simp_all add: clean_text_def)

text \<open>
  Claim C4 at the input \<open>a [..] b\<close>, a placeholder between two words. The run of white
  space is collapsed before the placeholder is removed and not again, so the result
  \<open>a  b\<close> has two adjacent spaces.
\<close>

theorem clean_text_double_space:
  "clean_text (Some (T ''a '' @ PLACEHOLDER @ T '' b'')) = T ''a  b''"
  by code_simp

subsection \<open>Regular expressions (\<open>re\<close>)\<close>

text \<open>
  The patterns of the extractor use a small part of Python's \<open>re\<close>: literals, the
  dot, character sets with \<open>\d\<close> and \<open>\s\<close>, greedy and lazy repetition of a single
  character or set, sequence, alternation, the optional group and capturing groups. The
  flags in use are \<open>IGNORECASE\<close> and \<open>DOTALL\<close>.

  \<open>Rep a mn mx greedy\<close> repeats the atom \<open>a\<close> at least \<open>mn\<close> and at most \<open>mx\<close> times:
  \<open>a*\<close> is \<open>Rep a 0 None True\<close>, \<open>a+?\<close> is \<open>Rep a 1 None False\<close>, \<open>a{1,2}\<close> is
  \<open>Rep a 1 (Some 2) True\<close>. \<open>r?\<close> is the alternation of \<open>r\<close> and the empty pattern.
\<close>

datatype reflag = IGNORECASE | DOTALL

datatype item = Chr nat | Digit | Space

datatype atom = AnyChar | Ch nat | OneOf "item list" | NoneOf "item list"

datatype re =
    Atom atom
  | Lit str
  | Rep atom nat "nat option" bool
  | Seq re re
  | Alt re re
  | Grp nat re
  | Eps

text \<open>
  \<open>\d\<close> is taken as the ASCII digits. (For a \<open>str\<close> pattern Python takes every Unicode
  decimal digit.) Case is ignored on the ASCII letters, as in \<open>lower\<close>.
\<close>

definition is_digit :: "nat \<Rightarrow> bool" where
  "is_digit c = (48 \<le> c \<and> c \<le> 57)"

definition fold_case :: "reflag list \<Rightarrow> nat \<Rightarrow> nat" where
  "fold_case fl c = (if IGNORECASE \<in> set fl then lower_cp c else c)"

fun item_ok :: "reflag list \<Rightarrow> item \<Rightarrow> nat \<Rightarrow> bool" where
  "item_ok fl (Chr c) x = (fold_case fl x = fold_case fl c)"
| "item_ok fl Digit x = is_digit x"
| "item_ok fl Space x = is_space x"

fun atom_ok :: "reflag list \<Rightarrow> atom \<Rightarrow> nat \<Rightarrow> bool" where
  "atom_ok fl AnyChar x = (DOTALL \<in> set fl \<or> x \<noteq> 10)"
| "atom_ok fl (Ch c) x = (fold_case fl x = fold_case fl c)"
| "atom_ok fl (OneOf items) x = list_ex (\<lambda>i. item_ok fl i x) items"
| "atom_ok fl (NoneOf items) x = (\<not> list_ex (\<lambda>i. item_ok fl i x) items)"

text \<open>A literal string at the head of the input: what is left after it, if it is there.\<close>

fun lit_rest :: "reflag list \<Rightarrow> str \<Rightarrow> str \<Rightarrow> str option" where
  "lit_rest fl [] s = Some s"
| "lit_rest fl (p # ps) [] = None"
| "lit_rest fl (p # ps) (x # xs) =
     (if fold_case fl x = fold_case fl p then lit_rest fl ps xs else None)"

text \<open>
  The matcher is the backtracking search of \<open>re\<close> written out: \<open>ms fl r s g\<close> lists every
  way in which \<open>r\<close> matches at the head of \<open>s\<close>, in the order in which backtracking
  tries them, each as the rest of the input with the groups captured so far (the newest
  first). The match that \<open>re\<close> reports is the head of the list.
\<close>

type_synonym groups = "(nat \<times> str) list"

definition rep_counts :: "nat \<Rightarrow> nat option \<Rightarrow> bool \<Rightarrow> nat \<Rightarrow> nat list" where
  "rep_counts mn mx greedy run =
     (let hi = (case mx of None \<Rightarrow> run | Some m \<Rightarrow> min m run)
      in if hi < mn then [] else if greedy then rev [mn..<Suc hi] else [mn..<Suc hi])"

fun ms :: "reflag list \<Rightarrow> re \<Rightarrow> str \<Rightarrow> groups \<Rightarrow> (str \<times> groups) list" where
  "ms fl (Atom a) s g =
     (case s of [] \<Rightarrow> [] | x # xs \<Rightarrow> if atom_ok fl a x then [(xs, g)] else [])"
| "ms fl (Lit l) s g = (case lit_rest fl l s of None \<Rightarrow> [] | Some rest \<Rightarrow> [(rest, g)])"
| "ms fl (Rep a mn mx greedy) s g =
     map (\<lambda>n. (drop n s, g)) (rep_counts mn mx greedy (length (takeWhile (atom_ok fl a) s)))"
| "ms fl (Seq r1 r2) s g = concat (map (\<lambda>(s', g'). ms fl r2 s' g') (ms fl r1 s g))"
| "ms fl (Alt r1 r2) s g = ms fl r1 s g @ ms fl r2 s g"
| "ms fl (Grp n r) s g =
     map (\<lambda>(s', g'). (s', (n, take (length s - length s') s) # g')) (ms fl r s g)"
| "ms fl Eps s g = [(s, g)]"

text \<open>
  \<open>re.match\<close> tries the start of the string only; \<open>re.search\<close> tries every position
  from the left, the end of the string included, and reports the first match.
  \<open>group m n\<close> is \<open>m.group(n)\<close>, \<open>None\<close> for a group that took no part in the match.
\<close>

definition re_match :: "reflag list \<Rightarrow> re \<Rightarrow> str \<Rightarrow> groups option" where
  "re_match fl r s = (case ms fl r s [] of [] \<Rightarrow> None | (rest, g) # _ \<Rightarrow> Some g)"

fun re_search :: "reflag list \<Rightarrow> re \<Rightarrow> str \<Rightarrow> groups option" where
  "re_search fl r [] = re_match fl r []"
| "re_search fl r (x # xs) =
     (case re_match fl r (x # xs) of Some g \<Rightarrow> Some g | None \<Rightarrow> re_search fl r xs)"

definition group :: "groups \<Rightarrow> nat \<Rightarrow> str option" where
  "group g n = map_of g n"

text \<open>Shorthands to write the patterns of the source.\<close>

definition seq :: "re list \<Rightarrow> re" where
  "seq rs = foldr Seq rs Eps"

definition alts :: "re list \<Rightarrow> re" where
  "alts rs = foldr Alt (butlast rs) (last rs)"

definition opt :: "re \<Rightarrow> re" where
  "opt r = Alt r Eps"

definition lit :: "string \<Rightarrow> re" where
  "lit s = Lit (T s)"

definition rep0 :: "atom \<Rightarrow> re" where
  "rep0 a = Rep a 0 None True"

definition rep1 :: "atom \<Rightarrow> re" where
  "rep1 a = Rep a 1 None True"

definition rep0_lazy :: "atom \<Rightarrow> re" where
  "rep0_lazy a = Rep a 0 None False"

definition rep1_lazy :: "atom \<Rightarrow> re" where
  "rep1_lazy a = Rep a 1 None False"


fun binds :: "nat \<Rightarrow> re \<Rightarrow> bool" where
  "binds n (Grp k r) = (k = n \<or> binds n r)"
| "binds n (Seq r1 r2) = (binds n r1 \<or> binds n r2)"
| "binds n (Alt r1 r2) = (binds n r1 \<and> binds n r2)"
| "binds n (Atom a) = False"
| "binds n (Lit l) = False"
| "binds n (Rep a mn mx greedy) = False"
| "binds n Eps = False"




lemma ms_keeps:
  "(rest, g') \<in> set (ms fl r s g) \<Longrightarrow> fst ` set g \<subseteq> fst ` set g'"
proof (induction r arbitrary: s g rest g')
  case (Seq r1 r2)
  from Seq.prems obtain s1 g1 where 1: "(s1, g1) \<in> set (ms fl r1 s g)"
    and 2: "(rest, g') \<in> set (ms fl r2 s1 g1)" by auto
  from Seq.IH(1) [OF 1] Seq.IH(2) [OF 2] show ?case by blast
next
  case (Grp n r)
  from Grp.prems obtain g1 where 1: "(rest, g1) \<in> set (ms fl r s g)" and g': "g' = (n, take (length s - length rest) s) # g1"
    by auto
  from Grp.IH [OF 1] g' show ?case by auto
next
  case (Alt r1 r2)
  from Alt.prems have "(rest, g') \<in> set (ms fl r1 s g) \<or> (rest, g') \<in> set (ms fl r2 s g)"
    by simp
  with Alt.IH show ?case by blast
qed (auto split: list.splits if_splits option.splits)

lemma ms_binds:
  "binds n r \<Longrightarrow> (rest, g') \<in> set (ms fl r s g) \<Longrightarrow> n \<in> fst ` set g'"
proof (induction r arbitrary: s g rest g')
  case (Seq r1 r2)
  from Seq.prems obtain s1 g1 where 1: "(s1, g1) \<in> set (ms fl r1 s g)"
    and 2: "(rest, g') \<in> set (ms fl r2 s1 g1)" by auto
  show ?case
  proof (cases "binds n r1")
    case True
    from Seq.IH(1) [OF True 1] ms_keeps [OF 2] show ?thesis by blast
  next
    case False
    then have "binds n r2" using Seq.prems(1) by simp
    from Seq.IH(2) [OF this 2] show ?thesis .
  qed
next
  case (Alt r1 r2)
  then show ?case by auto
next
  case (Grp k r)
  from Grp.prems obtain g1 where 1: "(rest, g1) \<in> set (ms fl r s g)" and g': "g' = (k, take (length s - length rest) s) # g1"
    by auto
  show ?case
  proof (cases "k = n")
    case True
    then show ?thesis using g' by simp
  next
    case False
    then have "binds n r" using Grp.prems(1) by simp
    from Grp.IH [OF this 1] g' show ?thesis by auto
  qed
qed simp_all

lemma re_match_Some:
  "re_match fl r s = Some g \<Longrightarrow> \<exists>rest. (rest, g) \<in> set (ms fl r s [])"
  by (auto simp: re_match_def split: list.splits)

lemma re_search_Some:
  "re_search fl r s = Some g \<Longrightarrow> \<exists>pre s' rest. s = pre @ s' \<and> (rest, g) \<in> set (ms fl r s' [])"
proof (induction s)
  case Nil
  then show ?case using re_match_Some by fastforce
next
  case (Cons x xs)
  show ?case
  proof (cases "re_match fl r (x # xs)")
    case None
    then have "re_search fl r xs = Some g" using Cons.prems by simp
    from Cons.IH [OF this] obtain pre s' rest where "xs = pre @ s'" "(rest, g) \<in> set (ms fl r s' [])"
      by blast
    then show ?thesis by (intro exI [of _ "x # pre"] exI [of _ s'] exI [of _ rest]) simp
  next
    case (Some g0)
    then have "g0 = g" using Cons.prems by simp
    with Some re_match_Some [of fl r "x # xs" g] obtain rest where
      "(rest, g) \<in> set (ms fl r (x # xs) [])" by blast
    then show ?thesis by (intro exI [of _ "[]"] exI [of _ "x # xs"] exI [of _ rest]) simp
  qed
qed

lemma re_search_group:
  assumes "re_search fl r s = Some m" "binds n r"
  shows "\<exists>w. group m n = Some w"
proof -
  from re_search_Some [OF assms(1)] obtain s' rest where "(rest, m) \<in> set (ms fl r s' [])" by blast
  from ms_binds [OF assms(2) this] have "n \<in> fst ` set m" .
  then have "map_of m n \<noteq> None" by (simp add: map_of_eq_None_iff)
  then show ?thesis by (simp add: group_def)
qed


subsection \<open>The numeric and currency parser\<close>

text \<open>
  The currency marker of the patterns, as the source file has it: the code points U+201A,
  U+00C7, U+03C0.
\<close>

definition RUPEE :: str where
  "RUPEE = [8218, 199, 960]"

text \<open>
  Line 74, with RUPEE for the three code points of the marker:
  \<open>[RUPEE Rs.]*\s*([\d,]+\.?\d*)\s*(Cr\.?|Crore|Lakh|Lakhs)?\<close>
\<close>

definition currency_pattern :: re where
  "currency_pattern =
     seq [rep0 (OneOf [Chr 8218, Chr 199, Chr 960, Chr 82, Chr 115, Chr 46]),
          rep0 (OneOf [Space]),
          Grp 1 (seq [rep1 (OneOf [Digit, Chr 44]), opt (Atom (Ch 46)), rep0 (OneOf [Digit])]),
          rep0 (OneOf [Space]),
          opt (Grp 2 (alts [seq [lit ''Cr'', opt (Atom (Ch 46))], lit ''Crore'', lit ''Lakh'',
                            lit ''Lakhs'']))]"

text \<open>
  \<open>float(s)\<close> for a string of ASCII digits and dots, which is all that the call sites pass
  (after the commas are removed): digits with at most one dot and at least one digit give
  the decimal's value, anything else raises \<open>ValueError\<close>. Signs, exponents, underscores,
  white space, \<open>inf\<close> and \<open>nan\<close>, which \<open>float\<close> also reads, are not modelled. The value
  is the exact decimal; the float is its rounding.
\<close>

definition digits_val :: "str \<Rightarrow> nat" where
  "digits_val ds = foldl (\<lambda>n c. 10 * n + (c - 48)) 0 ds"

definition py_float :: "str \<Rightarrow> error + rat" where
  "py_float s =
     (let ip = takeWhile is_digit s
      in case dropWhile is_digit s of
           [] \<Rightarrow> if ip = [] then Inl ValueError else Inr (of_nat (digits_val ip))
         | c # fp \<Rightarrow>
             if c = 46 \<and> list_all is_digit fp \<and> (ip \<noteq> [] \<or> fp \<noteq> [])
             then Inr (of_nat (digits_val ip) + of_nat (digits_val fp) / 10 ^ length fp)
             else Inl ValueError)"

text \<open>\<open>s.replace(c, '')\<close> for a single character \<open>c\<close>.\<close>

definition replace_char :: "nat \<Rightarrow> str \<Rightarrow> str" where
  "replace_char c s = filter (\<lambda>x. x \<noteq> c) s"

text \<open>
  \<open>_extract_currency_value\<close>. \<open>Amount v u c r\<close> is the dictionary with the keys
  \<open>value\<close>, \<open>unit\<close>, \<open>currency\<close> and \<open>raw\<close> (\<open>v\<close> is \<open>None\<close> for the Python value
  \<open>None\<close>), \<open>RawOnly r\<close> is the dictionary with the key \<open>raw\<close> alone.
\<close>

datatype currency = Amount "rat option" str str str | RawOnly str

definition extract_currency_value :: "str option \<Rightarrow> error + currency option" where
  "extract_currency_value t =
     (case t of
        None \<Rightarrow> Inr None
      | Some s \<Rightarrow>
          if s = [] then Inr None
          else
            (case re_search [] currency_pattern s of
               Some m \<Rightarrow>
                 (case group m 1 of
                    None \<Rightarrow> Inl AttributeError
                  | Some g1 \<Rightarrow>
                      (let v = replace_char 44 g1;
                           u = (case group m 2 of None \<Rightarrow> [] | Some g2 \<Rightarrow> g2)
                       in if v = []
                          then Inr (Some (Amount None (replace_char 46 u) RUPEE (clean_text (Some s))))
                          else
                            (case py_float v of
                               Inl err \<Rightarrow> Inl err
                             | Inr x \<Rightarrow>
                                 Inr (Some (Amount (Some x) (replace_char 46 u) RUPEE
                                              (clean_text (Some s)))))))
             | None \<Rightarrow> Inr (Some (RawOnly (clean_text (Some s))))))"

definition unit_of :: "groups \<Rightarrow> str" where
  "unit_of m = (case group m 2 of None \<Rightarrow> [] | Some g2 \<Rightarrow> g2)"

lemma currency_pattern_binds: "binds 1 currency_pattern"
  by (simp add: currency_pattern_def seq_def)

lemma py_float_Nil: "py_float [] = Inl ValueError"
  by (simp add: py_float_def)

lemma cur_ex1: "re_search [] currency_pattern (RUPEE @ T '' 895.50 Cr.'')
   = Some [(2, T ''Cr.''), (1, T ''895.50'')]" by code_simp
lemma cur_ex1f: "py_float (replace_char 44 (T ''895.50'')) = Inr (1791 / 2)" by code_simp
lemma cur_ex2: "re_search [] currency_pattern (T ''n/a'') = None" by code_simp
lemma cur_ex3: "re_search [] currency_pattern (T '','') = Some [(1, T '','')]" by code_simp

lemma currency_slip: "extract_currency_value (Some (T '',.'')) = Inl ValueError"
  by code_simp

text \<open>
  Claim C5, as the code has it. Absent and empty input give \<open>None\<close>. For a non-empty
  input in which the pattern finds no literal the result carries \<open>raw\<close> alone, the
  normalized input. When the pattern finds a literal that consists of separators only,
  the result carries the value \<open>None\<close>, the unit without its dots (empty when no unit
  was matched), the currency marker and \<open>raw\<close>. When the pattern finds a literal whose
  float conversion, without its separators, succeeds, the result carries that float as
  its value, and the unit, the currency marker and \<open>raw\<close> likewise.
\<close>

theorem extract_currency_value_cases:
  "extract_currency_value None = Inr None
   \<and> extract_currency_value (Some []) = Inr None
   \<and> (s \<noteq> [] \<and> re_search [] currency_pattern s = None
        \<longrightarrow> extract_currency_value (Some s) = Inr (Some (RawOnly (clean_text (Some s)))))
   \<and> (s \<noteq> [] \<and> re_search [] currency_pattern s = Some m
        \<longrightarrow> (\<exists>g1. group m 1 = Some g1
              \<and> (replace_char 44 g1 = []
                    \<longrightarrow> extract_currency_value (Some s)
                          = Inr (Some (Amount None (replace_char 46 (unit_of m)) RUPEE
                                         (clean_text (Some s)))))
              \<and> (\<forall>x. py_float (replace_char 44 g1) = Inr x
                    \<longrightarrow> extract_currency_value (Some s)
                          = Inr (Some (Amount (Some x) (replace_char 46 (unit_of m)) RUPEE
                                         (clean_text (Some s)))))))"
proof (intro conjI impI)
  show "extract_currency_value None = Inr None" by (simp add: extract_currency_value_def)
  show "extract_currency_value (Some []) = Inr None" by (simp add: extract_currency_value_def)
next
  assume "s \<noteq> [] \<and> re_search [] currency_pattern s = None"
  then show "extract_currency_value (Some s) = Inr (Some (RawOnly (clean_text (Some s))))"
    by (simp add: extract_currency_value_def)
next
  assume a: "s \<noteq> [] \<and> re_search [] currency_pattern s = Some m"
  then obtain g1 where g1: "group m 1 = Some g1"
    using re_search_group [OF _ currency_pattern_binds] by blast
  have e: "replace_char 44 g1 = []
      \<longrightarrow> extract_currency_value (Some s)
            = Inr (Some (Amount None (replace_char 46 (unit_of m)) RUPEE (clean_text (Some s))))"
    using a g1 by (simp add: extract_currency_value_def unit_of_def Let_def)
  have f: "\<forall>x. py_float (replace_char 44 g1) = Inr x
      \<longrightarrow> extract_currency_value (Some s)
            = Inr (Some (Amount (Some x) (replace_char 46 (unit_of m)) RUPEE (clean_text (Some s))))"
    using a g1 py_float_Nil by (auto simp: extract_currency_value_def unit_of_def Let_def)
  from g1 e f show "\<exists>g1. group m 1 = Some g1
              \<and> (replace_char 44 g1 = []
                    \<longrightarrow> extract_currency_value (Some s)
                          = Inr (Some (Amount None (replace_char 46 (unit_of m)) RUPEE
                                         (clean_text (Some s)))))
              \<and> (\<forall>x. py_float (replace_char 44 g1) = Inr x
                    \<longrightarrow> extract_currency_value (Some s)
                          = Inr (Some (Amount (Some x) (replace_char 46 (unit_of m)) RUPEE
                                         (clean_text (Some s)))))"
    by blast
qed

text \<open>The cases at an amount with a unit, and at a text without any digit.\<close>

theorem extract_currency_value_cases_witness:
  "RUPEE @ T '' 895.50 Cr.'' \<noteq> []
   \<and> re_search [] currency_pattern (RUPEE @ T '' 895.50 Cr.'') = Some [(2, T ''Cr.''), (1, T ''895.50'')]
   \<and> py_float (replace_char 44 (T ''895.50'')) = Inr (1791 / 2)
   \<and> extract_currency_value (Some (RUPEE @ T '' 895.50 Cr.''))
       = Inr (Some (Amount (Some (1791 / 2)) (T ''Cr'') RUPEE (RUPEE @ T '' 895.50 Cr.'')))
   \<and> T ''n/a'' \<noteq> []
   \<and> re_search [] currency_pattern (T ''n/a'') = None
   \<and> extract_currency_value (Some (T ''n/a'')) = Inr (Some (RawOnly (T ''n/a'')))"
proof -
  let ?s = "RUPEE @ T '' 895.50 Cr.''"
  let ?m = "[(2, T ''Cr.''), (1, T ''895.50'')]"
  have n1: "?s \<noteq> []" by (simp add: RUPEE_def)
  have n2: "T ''n/a'' \<noteq> []" by (simp add: T_def)
  have g: "group ?m 1 = Some (T ''895.50'')" by (simp add: group_def)
  have u: "replace_char 46 (unit_of ?m) = T ''Cr''" by code_simp
  have c1: "clean_text (Some ?s) = ?s" by code_simp
  have c2: "clean_text (Some (T ''n/a'')) = T ''n/a''" by code_simp
  from extract_currency_value_cases [of ?s ?m] n1 cur_ex1 g cur_ex1f
  have "extract_currency_value (Some ?s)
          = Inr (Some (Amount (Some (1791 / 2)) (replace_char 46 (unit_of ?m)) RUPEE (clean_text (Some ?s))))"
    by auto
  moreover from extract_currency_value_cases [of "T ''n/a''"] n2 cur_ex2
  have "extract_currency_value (Some (T ''n/a'')) = Inr (Some (RawOnly (clean_text (Some (T ''n/a'')))))"
    by blast
  ultimately show ?thesis using n1 n2 cur_ex1 cur_ex1f cur_ex2 by (simp only: u c1 c2 simp_thms)
qed

text \<open>
  Claim C5 as stated fails at the input of a single comma. The pattern finds the literal
  \<open>,\<close>, of which nothing is left without the separator, so there is no float conversion:
  the value is \<open>None\<close>, by the guard of line 82, while the unit and the currency marker
  are present.
\<close>

theorem extract_currency_value_counterexample:
  "re_search [] currency_pattern (T '','') = Some [(1, T '','')]
   \<and> py_float (replace_char 44 (T '','')) = Inl ValueError
   \<and> extract_currency_value (Some (T '','')) = Inr (Some (Amount None [] RUPEE (T '','')))"
  by code_simp

subsection \<open>The dates group\<close>

text \<open>
  Line 124, the shape of a calendar date:
  \<open>\d{1,2}(?:st|nd|rd|th)\s+(?:January|...|December)\s+\d{4}\<close>
\<close>

definition months :: "str list" where
  "months = map T [''January'', ''February'', ''March'', ''April'', ''May'', ''June'', ''July'',
                   ''August'', ''September'', ''October'', ''November'', ''December'']"

definition ordinals :: "str list" where
  "ordinals = map T [''st'', ''nd'', ''rd'', ''th'']"

definition date_regex :: re where
  "date_regex =
     seq [Rep (OneOf [Digit]) 1 (Some 2) True,
          alts (map Lit ordinals),
          rep1 (OneOf [Space]),
          alts (map Lit months),
          rep1 (OneOf [Space]),
          Rep (OneOf [Digit]) 4 (Some 4) True]"

text \<open>
  The six labeled patterns of lines 127 to 134 end alike, in
  \<open>.*?<b[^>]*>([^<]+)</b>\<close>: the first bold element after the label, with its text as
  group 1. The labels are
  \<open>(?:Date of DRHP|filed its Draft Red Herring Prospectus.*?on)\<close>,
  \<open>IPO open date is\<close>, \<open>(?:close|IPO Close).*?date is\<close>,
  \<open>(?:IPO )?Allotment Date is\<close>, \<open>(?:Initiation of Refund|refund dates)\<close> and
  \<open>Listing date is\<close>.
\<close>

definition bold_value :: "re list" where
  "bold_value =
     [rep0_lazy AnyChar, lit ''<b'', rep0 (NoneOf [Chr 62]), lit ''>'',
      Grp 1 (rep1 (NoneOf [Chr 60])), lit ''</b>'']"

definition date_fields :: "(str \<times> re) list" where
  "date_fields =
     [(T ''drhp_date'',
       seq (alts [lit ''Date of DRHP'',
                  seq [lit ''filed its Draft Red Herring Prospectus'', rep0_lazy AnyChar, lit ''on'']]
            # bold_value)),
      (T ''ipo_open_date'', seq (lit ''IPO open date is'' # bold_value)),
      (T ''ipo_close_date'',
       seq ([alts [lit ''close'', lit ''IPO Close''], rep0_lazy AnyChar, lit ''date is'']
            @ bold_value)),
      (T ''allotment_date'', seq (opt (lit ''IPO '') # lit ''Allotment Date is'' # bold_value)),
      (T ''refund_date'',
       seq (alts [lit ''Initiation of Refund'', lit ''refund dates''] # bold_value)),
      (T ''listing_date'', seq (lit ''Listing date is'' # bold_value))]"

text \<open>
  One turn of the loop of lines 137 to 143 and the loop itself. The keys of
  \<open>date_fields\<close> differ, so the dictionary \<open>dates\<close> is the list of its entries in the
  order in which they are set.
\<close>

definition extract_date_field :: "str \<Rightarrow> str \<times> re \<Rightarrow> (str \<times> str) list" where
  "extract_date_field html_str fp =
     (case fp of (field, pattern) \<Rightarrow>
        (case re_search [IGNORECASE, DOTALL] pattern html_str of
           None \<Rightarrow> []
         | Some m \<Rightarrow>
             (let date_text = clean_text (group m 1)
              in if re_search [] date_regex date_text \<noteq> None then [(field, date_text)] else [])))"

definition extract_dates :: "str \<Rightarrow> (str \<times> str) list" where
  "extract_dates html_str = concat (map (extract_date_field html_str) date_fields)"





lemma fold_case_plain [simp]: "fold_case [] c = c"
  by (simp add: fold_case_def)

lemma map_fold_case_plain [simp]: "map (fold_case []) w = w"
  by (induction w) simp_all

















subsection \<open>The values of the record and the pricing group\<close>

text \<open>
  The values of a field: cleaned text, a float, an integer, a list of texts, the rows of
  a table. A group is a dictionary from field names to values; every group sets each of
  its keys at most once, so it is the list of its entries in the order in which they are
  set.
\<close>

datatype fval = FStr str | FNum rat | FInt int | FList "str list" | FRows "(str \<times> str) list list"

type_synonym fields = "(str \<times> fval) list"

text \<open>The numeric literal of the patterns: \<open>[\d,]+\.?\d*\<close>.\<close>

definition number :: re where
  "number = seq [rep1 (OneOf [Digit, Chr 44]), opt (Atom (Ch 46)), rep0 (OneOf [Digit])]"

text \<open>
  \<open>float(m.group(n).replace(',', ''))\<close>. (\<open>None.replace\<close> would raise
  \<open>AttributeError\<close>; the patterns bind their group 1 in every match.)
\<close>

definition float_group :: "groups \<Rightarrow> nat \<Rightarrow> error + rat" where
  "float_group m n =
     (case group m n of None \<Rightarrow> Inl AttributeError | Some g \<Rightarrow> py_float (replace_char 44 g))"

text \<open>
  A field with one pattern: \<open>m = re.search(pattern, html_str, flags)\<close>, and the float of
  group 1 if there is a match.
\<close>

definition match_float :: "reflag list \<Rightarrow> re \<Rightarrow> str \<Rightarrow> (error + rat) option" where
  "match_float fl pattern html_str =
     (case re_search fl pattern html_str of None \<Rightarrow> None | Some m \<Rightarrow> Some (float_group m 1))"

text \<open>
  A field with several patterns (lines 159 to 163 and 170 to 174): the loop tries the
  patterns in order and leaves with \<open>break\<close> at the first that matches.
\<close>

fun chain_float :: "reflag list \<Rightarrow> re list \<Rightarrow> str \<Rightarrow> (error + rat) option" where
  "chain_float fl [] html_str = None"
| "chain_float fl (pattern # patterns) html_str =
     (case re_search fl pattern html_str of
        None \<Rightarrow> chain_float fl patterns html_str
      | Some m \<Rightarrow> Some (float_group m 1))"

text \<open>
  The assignment \<open>pricing[key] = float(...)\<close> under \<open>if m\<close>: no entry without a match,
  the exception when \<open>float\<close> raises.
\<close>

definition float_entry :: "str \<Rightarrow> (error + rat) option \<Rightarrow> error + fields" where
  "float_entry key r =
     (case r of None \<Rightarrow> Inr [] | Some (Inl err) \<Rightarrow> Inl err | Some (Inr v) \<Rightarrow> Inr [(key, FNum v)])"

text \<open>Statements in sequence: the first exception ends the function.\<close>

fun in_order :: "(error + fields) list \<Rightarrow> error + fields" where
  "in_order [] = Inr []"
| "in_order (Inl err # rest) = Inl err"
| "in_order (Inr fs # rest) = (case in_order rest of Inl err \<Rightarrow> Inl err | Inr gs \<Rightarrow> Inr (fs @ gs))"

text \<open>\<open>int(s)\<close> for a string of ASCII digits, which is all that \<open>(\d+)\<close> passes.\<close>

definition py_int :: "str \<Rightarrow> error + int" where
  "py_int s = (if s \<noteq> [] \<and> list_all is_digit s then Inr (int (digits_val s)) else Inl ValueError)"

text \<open>
  Lines 154 to 158, with RUPEE for the currency marker:
  \<open>IPO size is.*?<b>RUPEE\s*([\d,]+\.?\d*)\s*(Cr\.?|Crore)\<close>,
  \<open>ipo size of RUPEE\s*([\d,]+\.?\d*)\s*(Cr\.?)\<close> and
  \<open>IPO\s+Size\s*:.*?<b[^>]*>RUPEE\s*([\d,]+\.?\d*)\s*(Cr\.?)\<close>.
\<close>

definition size_patterns :: "re list" where
  "size_patterns =
     [seq [lit ''IPO size is'', rep0_lazy AnyChar, lit ''<b>'', Lit RUPEE, rep0 (OneOf [Space]),
           Grp 1 number, rep0 (OneOf [Space]),
           Grp 2 (alts [seq [lit ''Cr'', opt (Atom (Ch 46))], lit ''Crore''])],
      seq [lit ''ipo size of '', Lit RUPEE, rep0 (OneOf [Space]), Grp 1 number,
           rep0 (OneOf [Space]), Grp 2 (seq [lit ''Cr'', opt (Atom (Ch 46))])],
      seq [lit ''IPO'', rep1 (OneOf [Space]), lit ''Size'', rep0 (OneOf [Space]), lit '':'',
           rep0_lazy AnyChar, lit ''<b'', rep0 (NoneOf [Chr 62]), lit ''>'', Lit RUPEE,
           rep0 (OneOf [Space]), Grp 1 number, rep0 (OneOf [Space]),
           Grp 2 (seq [lit ''Cr'', opt (Atom (Ch 46))])]]"

text \<open>
  Lines 166 to 169: \<open>Issue Price\s*:.*?<b[^>]*>RUPEE\s*([\d,]+\.?\d*)\<close> and
  \<open>IPO price of.*?<b>RUPEE\s*([\d,]+\.?\d*)</b>\<close>.
\<close>

definition price_patterns :: "re list" where
  "price_patterns =
     [seq [lit ''Issue Price'', rep0 (OneOf [Space]), lit '':'', rep0_lazy AnyChar, lit ''<b'',
           rep0 (NoneOf [Chr 62]), lit ''>'', Lit RUPEE, rep0 (OneOf [Space]), Grp 1 number],
      seq [lit ''IPO price of'', rep0_lazy AnyChar, lit ''<b>'', Lit RUPEE, rep0 (OneOf [Space]),
           Grp 1 number, lit ''</b>'']]"

text \<open>
  Lines 177, 183 and 189: \<open>upper price band.*?is set at RUPEE\s*([\d,]+\.?\d*)\<close>,
  \<open>Face Value.*?RUPEE\s*([\d,]+\.?\d*)\<close> and
  \<open>(?:Lot Size|Market Lot|lot size).*?(\d+)\s*(?:shares?)?\<close>.
\<close>

definition band_pattern :: re where
  "band_pattern =
     seq [lit ''upper price band'', rep0_lazy AnyChar, lit ''is set at '', Lit RUPEE,
          rep0 (OneOf [Space]), Grp 1 number]"

definition face_value_pattern :: re where
  "face_value_pattern =
     seq [lit ''Face Value'', rep0_lazy AnyChar, Lit RUPEE, rep0 (OneOf [Space]), Grp 1 number]"

definition lot_pattern :: re where
  "lot_pattern =
     seq [alts [lit ''Lot Size'', lit ''Market Lot'', lit ''lot size''], rep0_lazy AnyChar,
          Grp 1 (rep1 (OneOf [Digit])), rep0 (OneOf [Space]),
          opt (seq [lit ''share'', opt (Atom (Ch 115))])]"

definition lot_entry :: "str \<Rightarrow> error + fields" where
  "lot_entry html_str =
     (case re_search [IGNORECASE] lot_pattern html_str of
        None \<Rightarrow> Inr []
      | Some m \<Rightarrow>
          (case group m 1 of
             None \<Rightarrow> Inl AttributeError
           | Some g \<Rightarrow>
               (case py_int g of Inl err \<Rightarrow> Inl err | Inr n \<Rightarrow> Inr [(T ''lot_size'', FInt n)])))"

text \<open>
  \<open>_extract_pricing\<close>: its five fields in the order of the source; every search has the
  flag \<open>IGNORECASE\<close>.
\<close>

definition pricing_entries :: "str \<Rightarrow> (error + fields) list" where
  "pricing_entries html_str =
     [float_entry (T ''ipo_size_cr'') (chain_float [IGNORECASE] size_patterns html_str),
      float_entry (T ''issue_price_rs'') (chain_float [IGNORECASE] price_patterns html_str),
      float_entry (T ''price_band_upper_rs'') (match_float [IGNORECASE] band_pattern html_str),
      float_entry (T ''face_value_rs'') (match_float [IGNORECASE] face_value_pattern html_str),
      lot_entry html_str]"

definition extract_pricing :: "str \<Rightarrow> error + fields" where
  "extract_pricing html_str = in_order (pricing_entries html_str)"

text \<open>A page on which all three patterns of the issue size match, each at another amount.\<close>

definition pricing_doc :: str where
  "pricing_doc = T ''ipo size of '' @ RUPEE @ T '' 100 Cr. IPO Size : <b>'' @ RUPEE
      @ T '' 300 Cr.</b> IPO size is <b>'' @ RUPEE @ T '' 1,200.50 Cr</b>''"

subsection \<open>The element tree\<close>

text \<open>
  The tree that \<open>BeautifulSoup\<close> parses: a node is a string or a tag with a name,
  attributes and children. \<open>descendants\<close> lists the nodes below a tag in document
  order, \<open>text_of\<close> is the property \<open>.text\<close> (the strings below the tag, joined),
  \<open>find_all tag nm\<close> is \<open>tag.find_all(nm)\<close> and \<open>find_tag tag nm\<close> is \<open>tag.find(nm)\<close>,
  the first of them or \<open>None\<close>.
\<close>

datatype node = Text str | Elem str "(str \<times> str) list" "node list"

fun descendants :: "node \<Rightarrow> node list" and descendants_list :: "node list \<Rightarrow> node list" where
  "descendants (Text t) = []"
| "descendants (Elem nm attrs children) = descendants_list children"
| "descendants_list [] = []"
| "descendants_list (c # cs) = c # descendants c @ descendants_list cs"

fun text_of :: "node \<Rightarrow> str" and text_of_list :: "node list \<Rightarrow> str" where
  "text_of (Text t) = t"
| "text_of (Elem nm attrs children) = text_of_list children"
| "text_of_list [] = []"
| "text_of_list (c # cs) = text_of c @ text_of_list cs"

fun is_tag :: "str \<Rightarrow> node \<Rightarrow> bool" where
  "is_tag nm (Text t) = False"
| "is_tag nm (Elem nm' attrs children) = (nm' = nm)"

definition find_all :: "node \<Rightarrow> str \<Rightarrow> node list" where
  "find_all tag nm = filter (is_tag nm) (descendants tag)"

definition find_tag :: "node \<Rightarrow> str \<Rightarrow> node option" where
  "find_tag tag nm = (case find_all tag nm of [] \<Rightarrow> None | x # _ \<Rightarrow> Some x)"

subsection \<open>The subscription table\<close>

text \<open>
  \<open>dict(pairs)\<close> for pairs of strings: a later pair with a key that is already there
  replaces the value and leaves the key at its place.
\<close>

definition py_dict :: "(str \<times> str) list \<Rightarrow> (str \<times> str) list" where
  "py_dict kvs = fold (\<lambda>kv d. AList.update (fst kv) (snd kv) d) kvs []"

text \<open>
  \<open>_parse_subscription_table\<close>: the header labels (lines 350 to 352), the cells of a row
  (line 358) and the loop over the rows of the body (lines 355 to 361).
\<close>

definition table_headers :: "node \<Rightarrow> str list" where
  "table_headers table =
     (case find_tag table (T ''thead'') of
        None \<Rightarrow> []
      | Some header_row \<Rightarrow> map (\<lambda>th. clean_text (Some (text_of th))) (find_all header_row (T ''th'')))"

definition row_cells :: "node \<Rightarrow> str list" where
  "row_cells tr = map (\<lambda>td. clean_text (Some (text_of td))) (find_all tr (T ''td''))"

definition parse_subscription_table :: "node \<Rightarrow> (str \<times> str) list list" where
  "parse_subscription_table table =
     (let headers = table_headers table
      in case find_tag table (T ''tbody'') of
           None \<Rightarrow> []
         | Some tbody \<Rightarrow>
             concat (map (\<lambda>tr. let cells = row_cells tr
                                in if cells \<noteq> [] \<and> headers \<noteq> [] then [py_dict (zip headers cells)]
                                   else [])
                         (find_all tbody (T ''tr''))))"

text \<open>
  A table with two header labels and three rows: two cells, no cell, three cells. And a
  table with a body and no head.
\<close>

definition example_table :: node where
  "example_table =
     Elem (T ''table'') [(T ''class'', T ''subscription-table'')]
       [Elem (T ''thead'') []
          [Elem (T ''tr'') [] [Elem (T ''th'') [] [Text (T ''Category'')],
                               Elem (T ''th'') [] [Text (T '' Times '')]]],
        Elem (T ''tbody'') []
          [Elem (T ''tr'') [] [Elem (T ''td'') [] [Text (T ''QIB'')],
                               Elem (T ''td'') [] [Elem (T ''b'') [] [Text (T ''12.5'')]]],
           Elem (T ''tr'') [] [],
           Elem (T ''tr'') [] [Elem (T ''td'') [] [Text (T ''Retail'')],
                               Elem (T ''td'') [] [Text (T ''3.1'')],
                               Elem (T ''td'') [] [Text (T ''extra'')]]]]"

lemma py_dict_fold:
  "distinct (map fst d) \<Longrightarrow> fst ` set d \<inter> fst ` set kvs = {} \<Longrightarrow> distinct (map fst kvs)
     \<Longrightarrow> fold (\<lambda>kv d. AList.update (fst kv) (snd kv) d) kvs d = d @ kvs"
proof (induction kvs arbitrary: d)
  case Nil
  then show ?case by simp
next
  case (Cons kv kvs)
  have u: "AList.update (fst kv) (snd kv) d = d @ [kv]"
    using Cons.prems(2) by (induction d) auto
  have "fold (\<lambda>kv d. AList.update (fst kv) (snd kv) d) kvs (d @ [kv]) = (d @ [kv]) @ kvs"
    using Cons.prems by (intro Cons.IH) auto
  then show ?case by (simp add: u)
qed

lemma py_dict_distinct: "distinct (map fst kvs) \<Longrightarrow> py_dict kvs = kvs"
  using py_dict_fold [of "[]" kvs] by (simp add: py_dict_def)

lemma py_dict_lookup: "map_of (py_dict kvs) = map_of (rev kvs)"
proof -
  have "map_of (fold (\<lambda>kv d. AList.update (fst kv) (snd kv) d) kvs d) = map_of (rev kvs @ d)" for d
    by (induction kvs arbitrary: d) (auto simp: update_conv' fun_eq_iff map_add_def split: option.splits)
  then show ?thesis by (simp add: py_dict_def)
qed

lemma py_dict_keys_distinct: "distinct (map fst (py_dict kvs))"
proof -
  have "distinct (map fst d) \<Longrightarrow> distinct (map fst (fold (\<lambda>kv d. AList.update (fst kv) (snd kv) d) kvs d))" for d
    by (induction kvs arbitrary: d) (simp_all add: distinct_update)
  then show ?thesis by (simp add: py_dict_def)
qed

lemma example_table_headers: "table_headers example_table = [T ''Category'', T ''Times'']"
  by code_simp

lemma example_table_tbody:
  "find_tag example_table (T ''tbody'')
     = Some (Elem (T ''tbody'') []
          [Elem (T ''tr'') [] [Elem (T ''td'') [] [Text (T ''QIB'')],
                               Elem (T ''td'') [] [Elem (T ''b'') [] [Text (T ''12.5'')]]],
           Elem (T ''tr'') [] [],
           Elem (T ''tr'') [] [Elem (T ''td'') [] [Text (T ''Retail'')],
                               Elem (T ''td'') [] [Text (T ''3.1'')],
                               Elem (T ''td'') [] [Text (T ''extra'')]]])"
  by code_simp

lemma example_table_rows:
  "parse_subscription_table example_table
     = [[(T ''Category'', T ''QIB''), (T ''Times'', T ''12.5'')],
        [(T ''Category'', T ''Retail''), (T ''Times'', T ''3.1'')]]"
  by code_simp

lemma no_head_rows:
  "parse_subscription_table
     (Elem (T ''table'') []
        [Elem (T ''tbody'') [] [Elem (T ''tr'') [] [Elem (T ''td'') [] [Text (T ''QIB'')]]]]) = []"
  by code_simp

text \<open>
  Claim C8. Without header labels or without a body the parsed rows are empty. With both,
  the rows are, in order, one dictionary for every row of the body that has a cell: the
  pairs of the header labels and the row's cells, zipped in column order. Such a
  dictionary has every key once, with the value of the last pair of that key; when the
  header labels differ it is the zipped list itself.
\<close>

theorem subscription_table_rows:
  "(table_headers table = [] \<or> find_tag table (T ''tbody'') = None
      \<longrightarrow> parse_subscription_table table = [])
   \<and> (table_headers table \<noteq> [] \<and> find_tag table (T ''tbody'') = Some tbody
      \<longrightarrow> parse_subscription_table table
            = map (\<lambda>cells. py_dict (zip (table_headers table) cells))
                (filter (\<lambda>cells. cells \<noteq> []) (map row_cells (find_all tbody (T ''tr'')))))
   \<and> map_of (py_dict (zip hs cs)) = map_of (rev (zip hs cs))
   \<and> distinct (map fst (py_dict (zip hs cs)))
   \<and> (distinct hs \<longrightarrow> py_dict (zip hs cs) = zip hs cs)"
proof -
  have 1: "table_headers table = [] \<or> find_tag table (T ''tbody'') = None
      \<longrightarrow> parse_subscription_table table = []"
    by (auto simp: parse_subscription_table_def Let_def split: option.splits)
  have c: "concat (map (\<lambda>tr. if row_cells tr \<noteq> [] then [f (row_cells tr)] else []) trs)
             = map f (filter (\<lambda>cells. cells \<noteq> []) (map row_cells trs))" for f :: "str list \<Rightarrow> (str \<times> str) list" and trs
    by (induction trs) simp_all
  have 2: "table_headers table \<noteq> [] \<and> find_tag table (T ''tbody'') = Some tbody
      \<longrightarrow> parse_subscription_table table
            = map (\<lambda>cells. py_dict (zip (table_headers table) cells))
                (filter (\<lambda>cells. cells \<noteq> []) (map row_cells (find_all tbody (T ''tr''))))"
    using c [of "\<lambda>cells. py_dict (zip (table_headers table) cells)" "find_all tbody (T ''tr'')"]
    by (auto simp: parse_subscription_table_def Let_def)
  have 3: "distinct hs \<longrightarrow> py_dict (zip hs cs) = zip hs cs"
    by (auto intro!: py_dict_distinct simp: distinct_zipI1 map_fst_zip_take distinct_take)
  from 1 2 3 py_dict_lookup py_dict_keys_distinct show ?thesis by blast
qed

text \<open>At the two tables above.\<close>

theorem subscription_table_rows_witness:
  "table_headers example_table \<noteq> []
   \<and> find_tag example_table (T ''tbody'') \<noteq> None
   \<and> distinct (table_headers example_table)
   \<and> parse_subscription_table example_table
       = [[(T ''Category'', T ''QIB''), (T ''Times'', T ''12.5'')],
          [(T ''Category'', T ''Retail''), (T ''Times'', T ''3.1'')]]
   \<and> py_dict (zip (table_headers example_table) [T ''QIB'', T ''12.5''])
       = zip (table_headers example_table) [T ''QIB'', T ''12.5'']
   \<and> table_headers (Elem (T ''table'') []
        [Elem (T ''tbody'') [] [Elem (T ''tr'') [] [Elem (T ''td'') [] [Text (T ''QIB'')]]]]) = []
   \<and> parse_subscription_table (Elem (T ''table'') []
        [Elem (T ''tbody'') [] [Elem (T ''tr'') [] [Elem (T ''td'') [] [Text (T ''QIB'')]]]]) = []"
proof -
  let ?t = "Elem (T ''table'') []
        [Elem (T ''tbody'') [] [Elem (T ''tr'') [] [Elem (T ''td'') [] [Text (T ''QIB'')]]]]"
  have h: "table_headers example_table \<noteq> []" by (simp add: example_table_headers)
  have b: "find_tag example_table (T ''tbody'') \<noteq> None" by (simp add: example_table_tbody)
  have d: "distinct (table_headers example_table)" by (simp add: example_table_headers T_def)
  have e: "table_headers ?t = []" by code_simp
  from subscription_table_rows [of example_table _ "table_headers example_table" "[T ''QIB'', T ''12.5'']"] d
  have z: "py_dict (zip (table_headers example_table) [T ''QIB'', T ''12.5''])
       = zip (table_headers example_table) [T ''QIB'', T ''12.5'']" by blast
  from subscription_table_rows [of ?t] e
  have "parse_subscription_table ?t = []" by blast
  with h b d z e example_table_rows show ?thesis by blast
qed

subsection \<open>The document and the remaining groups\<close>

text \<open>
  The extractor reads the parsed page in two ways: through the element tree
  (\<open>self.soup.find\<close>) and through its serialization \<open>str(self.soup)\<close>, on which the
  patterns run. Parsing and serializing are \<open>BeautifulSoup\<close>'s; the model takes both
  views of the page as given.
\<close>

record document =
  soup :: node
  soup_str :: str

text \<open>
  \<open>tag.get(k)\<close>, \<open>find\<close> with a condition on the tag (its first descendant that meets
  it), and the classes of a tag: its \<open>class\<close> attribute, split at white space.
\<close>

fun attr :: "node \<Rightarrow> str \<Rightarrow> str option" where
  "attr (Text t) k = None"
| "attr (Elem nm attrs children) k = map_of attrs k"

definition find_where :: "node \<Rightarrow> (node \<Rightarrow> bool) \<Rightarrow> node option" where
  "find_where tag p = (case filter p (descendants tag) of [] \<Rightarrow> None | x # _ \<Rightarrow> Some x)"

fun split_ws :: "str \<Rightarrow> str \<Rightarrow> str list" where
  "split_ws [] cur = (if cur = [] then [] else [cur])"
| "split_ws (c # cs) cur =
     (if is_space c then (if cur = [] then split_ws cs [] else cur # split_ws cs [])
      else split_ws cs (cur @ [c]))"

definition classes :: "node \<Rightarrow> str list" where
  "classes tag = (case attr tag (T ''class'') of None \<Rightarrow> [] | Some v \<Rightarrow> split_ws v [])"

text \<open>Parts that many patterns share: \<open>\s*\<close>, \<open>\s+\<close> and \<open><b[^>]*>\<close>.\<close>

definition ws0 :: re where
  "ws0 = rep0 (OneOf [Space])"

definition ws1 :: re where
  "ws1 = rep1 (OneOf [Space])"

definition b_open :: "re list" where
  "b_open = [lit ''<b'', rep0 (NoneOf [Chr 62]), lit ''>'']"

text \<open>
  A text field with one pattern: \<open>m = pattern.search(html_str)\<close>, and under \<open>if m\<close> the
  assignment of \<open>self._clean_text(m.group(n))\<close>.
\<close>

definition text_entry :: "str \<Rightarrow> reflag list \<Rightarrow> re \<Rightarrow> nat \<Rightarrow> str \<Rightarrow> fields" where
  "text_entry key fl pattern n html_str =
     (case re_search fl pattern html_str of
        None \<Rightarrow> []
      | Some m \<Rightarrow> [(key, FStr (clean_text (group m n)))])"

text \<open>
  The basic information. Line 97 searches the title's text for \<open>^(.+?)\s+IPO\<close>; the
  anchor admits a match at the start only, so the search is a match there. Lines 106 and
  112: \<open>Exchange\s*:\s*<span[^>]*>([^<]+)</span>\<close> and
  \<open>Issue Type\s*:\s*<span[^>]*>([^<]+)</span>\<close>, without flags. The category is the text
  of the first \<open>span\<close> of the class \<open>mainboard-ipo\<close>.
\<close>

definition title_pattern :: re where
  "title_pattern = seq [Grp 1 (rep1_lazy AnyChar), ws1, lit ''IPO'']"

definition exchange_pattern :: re where
  "exchange_pattern =
     seq [lit ''Exchange'', ws0, lit '':'', ws0, lit ''<span'', rep0 (NoneOf [Chr 62]), lit ''>'',
          Grp 1 (rep1 (NoneOf [Chr 60])), lit ''</span>'']"

definition issue_type_pattern :: re where
  "issue_type_pattern =
     seq [lit ''Issue Type'', ws0, lit '':'', ws0, lit ''<span'', rep0 (NoneOf [Chr 62]), lit ''>'',
          Grp 1 (rep1 (NoneOf [Chr 60])), lit ''</span>'']"

definition company_name_entry :: "node \<Rightarrow> error + fields" where
  "company_name_entry tree =
     (case find_tag tree (T ''title'') of
        None \<Rightarrow> Inr []
      | Some title \<Rightarrow>
          (case re_match [] title_pattern (text_of title) of
             None \<Rightarrow> Inr [(T ''company_name'', FStr [])]
           | Some m \<Rightarrow>
               (case group m 1 of
                  None \<Rightarrow> Inl AttributeError
                | Some g \<Rightarrow> Inr [(T ''company_name'', FStr (strip g))])))"

definition ipo_category_entry :: "node \<Rightarrow> fields" where
  "ipo_category_entry tree =
     (case find_where tree (\<lambda>t. is_tag (T ''span'') t \<and> T ''mainboard-ipo'' \<in> set (classes t)) of
        None \<Rightarrow> []
      | Some category_elem \<Rightarrow> [(T ''ipo_category'', FStr (clean_text (Some (text_of category_elem))))])"

definition extract_basic_info :: "document \<Rightarrow> error + fields" where
  "extract_basic_info d =
     in_order
       [company_name_entry (soup d),
        Inr (ipo_category_entry (soup d)),
        Inr (text_entry (T ''exchange'') [] exchange_pattern 1 (soup_str d)),
        Inr (text_entry (T ''issue_type'') [] issue_type_pattern 1 (soup_str d))]"

text \<open>
  The financial information, lines 203 to 240:
  \<open>Market Capitalisation\s*:.*?<b[^>]*>RUPEE\s*([\d,]+\.?\d*)\s*Cr\.\<close>,
  \<open>PE\s+(?:multiple|Ratio)\s*:.*?<b[^>]*>([\d,]+\.?\d*)\<close> and then
  \<open>PE\s+Ratio:<b[^>]*>([\d,]+\.?\d*)x?</b>\<close>,
  \<open>Revenue\s*\(annualised\).*?<b[^>]*>RUPEE\s*([\d,]+\.?\d*)\s*cr\.\<close>,
  \<open>PAT:\s*\(annualised\).*?<b[^>]*>RUPEE\s*([\d,]+\.?\d*)\s*cr\.\<close> and, for the label
  \<open>Pre Issue Promoter Holding\<close> and for \<open>Post Issue Promoter Holding\<close>,
  \<open>label\s*:.*?<b[^>]*>([\d.]+)\s*%\<close>, whose group goes to \<open>float\<close> as it is.
\<close>

definition mcap_pattern :: re where
  "mcap_pattern =
     seq ([lit ''Market Capitalisation'', ws0, lit '':'', rep0_lazy AnyChar] @ b_open
          @ [Lit RUPEE, ws0, Grp 1 number, ws0, lit ''Cr.''])"

definition pe_patterns :: "re list" where
  "pe_patterns =
     [seq ([lit ''PE'', ws1, alts [lit ''multiple'', lit ''Ratio''], ws0, lit '':'',
            rep0_lazy AnyChar] @ b_open @ [Grp 1 number]),
      seq ([lit ''PE'', ws1, lit ''Ratio:''] @ b_open
           @ [Grp 1 number, opt (Atom (Ch 120)), lit ''</b>''])]"

definition revenue_pattern :: re where
  "revenue_pattern =
     seq ([lit ''Revenue'', ws0, lit ''(annualised)'', rep0_lazy AnyChar] @ b_open
          @ [Lit RUPEE, ws0, Grp 1 number, ws0, lit ''cr.''])"

definition pat_pattern :: re where
  "pat_pattern =
     seq ([lit ''PAT:'', ws0, lit ''(annualised)'', rep0_lazy AnyChar] @ b_open
          @ [Lit RUPEE, ws0, Grp 1 number, ws0, lit ''cr.''])"

definition holding_pattern :: "string \<Rightarrow> re" where
  "holding_pattern label =
     seq ([lit label, ws0, lit '':'', rep0_lazy AnyChar] @ b_open
          @ [Grp 1 (rep1 (OneOf [Digit, Chr 46])), ws0, lit ''%''])"

definition plain_float_group :: "groups \<Rightarrow> nat \<Rightarrow> error + rat" where
  "plain_float_group m n =
     (case group m n of None \<Rightarrow> Inl AttributeError | Some g \<Rightarrow> py_float g)"

definition match_plain_float :: "reflag list \<Rightarrow> re \<Rightarrow> str \<Rightarrow> (error + rat) option" where
  "match_plain_float fl pattern html_str =
     (case re_search fl pattern html_str of None \<Rightarrow> None | Some m \<Rightarrow> Some (plain_float_group m 1))"

definition financial_entries :: "str \<Rightarrow> (error + fields) list" where
  "financial_entries html_str =
     [float_entry (T ''market_cap_cr'') (match_float [IGNORECASE] mcap_pattern html_str),
      float_entry (T ''pe_ratio'') (chain_float [IGNORECASE] pe_patterns html_str),
      float_entry (T ''revenue_annualised_cr'') (match_float [IGNORECASE] revenue_pattern html_str),
      float_entry (T ''pat_annualised_cr'') (match_float [IGNORECASE] pat_pattern html_str),
      float_entry (T ''pre_issue_promoter_holding_percent'')
        (match_plain_float [IGNORECASE] (holding_pattern ''Pre Issue Promoter Holding'') html_str),
      float_entry (T ''post_issue_promoter_holding_percent'')
        (match_plain_float [IGNORECASE] (holding_pattern ''Post Issue Promoter Holding'') html_str)]"

definition extract_financial_info :: "str \<Rightarrow> error + fields" where
  "extract_financial_info html_str = in_order (financial_entries html_str)"

text \<open>
  \<open>re.findall\<close>: the matches from left to right, each search starting where the last
  match ended (one further when that match was empty). \<open>covered\<close> counts the characters
  of the last match that are still ahead.
\<close>

fun findall :: "reflag list \<Rightarrow> re \<Rightarrow> str \<Rightarrow> nat \<Rightarrow> groups list" where
  "findall fl r [] covered =
     (if 0 < covered then [] else (case ms fl r [] [] of [] \<Rightarrow> [] | (rest, g) # _ \<Rightarrow> [g]))"
| "findall fl r (x # xs) covered =
     (if 0 < covered then findall fl r xs (covered - 1)
      else
        (case ms fl r (x # xs) [] of
           [] \<Rightarrow> findall fl r xs 0
         | (rest, g) # _ \<Rightarrow> g # findall fl r xs (length (x # xs) - length rest - 1)))"

text \<open>
  The stakeholders. Line 251, for the lead managers:
  \<open><a href="[^"]*merchant-banker[^"]*"[^>]*>\s*<b[^>]*>\s*([^<]+?(?:Securities|Capital|Advisory)[^<]*?Limited)\s*</b>\<close>.
  Line 265, for the registrar:
  \<open><a[^>]*href="[^"]*ipo-registrar[^"]*"[^>]*>\s*([^<]+?(?:Securities|Capital|Computers|Consultants)[^<]*?Limited[^<]*?)\s*(?:<i|</a>)\<close>.
  The loop of lines 257 to 261 keeps the first occurrence of every cleaned name.
\<close>

definition brlm_pattern :: re where
  "brlm_pattern =
     seq ([lit ''<a href=\"'', rep0 (NoneOf [Chr 34]), lit ''merchant-banker'',
           rep0 (NoneOf [Chr 34]), lit ''\"'', rep0 (NoneOf [Chr 62]), lit ''>'', ws0] @ b_open
          @ [ws0,
             Grp 1 (seq [rep1_lazy (NoneOf [Chr 60]),
                         alts [lit ''Securities'', lit ''Capital'', lit ''Advisory''],
                         rep0_lazy (NoneOf [Chr 60]), lit ''Limited'']),
             ws0, lit ''</b>''])"

definition registrar_pattern :: re where
  "registrar_pattern =
     seq [lit ''<a'', rep0 (NoneOf [Chr 62]), lit ''href=\"'', rep0 (NoneOf [Chr 34]),
          lit ''ipo-registrar'', rep0 (NoneOf [Chr 34]), lit ''\"'', rep0 (NoneOf [Chr 62]),
          lit ''>'', ws0,
          Grp 1 (seq [rep1_lazy (NoneOf [Chr 60]),
                      alts [lit ''Securities'', lit ''Capital'', lit ''Computers'',
                            lit ''Consultants''],
                      rep0_lazy (NoneOf [Chr 60]), lit ''Limited'', rep0_lazy (NoneOf [Chr 60])]),
          ws0, alts [lit ''<i'', lit ''</a>'']]"

fun unique_clean :: "str list \<Rightarrow> str set \<Rightarrow> str list \<Rightarrow> str list" where
  "unique_clean [] seen brlms = brlms"
| "unique_clean (brlm # rest) seen brlms =
     (let brlm_clean = clean_text (Some brlm)
      in if brlm_clean \<noteq> [] \<and> brlm_clean \<notin> seen
         then unique_clean rest (insert brlm_clean seen) (brlms @ [brlm_clean])
         else unique_clean rest seen brlms)"

definition extract_stakeholders :: "str \<Rightarrow> fields" where
  "extract_stakeholders html_str =
     (let brlm_matches =
            map (\<lambda>g. case group g 1 of None \<Rightarrow> [] | Some w \<Rightarrow> w)
              (findall [IGNORECASE] brlm_pattern html_str 0)
      in (if brlm_matches \<noteq> []
          then [(T ''lead_managers'', FList (take 3 (unique_clean brlm_matches {} [])))]
          else [])
         @ text_entry (T ''registrar'') [IGNORECASE] registrar_pattern 1 html_str)"

text \<open>
  The company information. Sector and city come from a link,
  \<open><a[^>]*href="[^"]*PATH([^"]+)"[^>]*>\s*<b[^>]*>([^<]+)</b>\<close> with
  \<open>know-your-sector/\<close> and \<open>geography-wise-ipos/\<close> for PATH (the value is group 2),
  or else from the prose:
  \<open>caters to.*?<a[^>]*>\s*<b[^>]*>([^<]+)</b>\s*</a>\s*sector\<close> and
  \<open>based in.*?<a[^>]*>\s*<b[^>]*>([^<]+)</b>\s*</a>\<close>. The sub-sector is
  \<open>Sub Sector\s*:\s*<b[^>]*>([^<]+)</b>\<close>. The description is the text of the
  \<open>div\<close> with the id \<open>company-info-preview\<close>, cleaned, without quotation marks at
  its ends, cut to 500 characters.
\<close>

definition link_pattern :: "string \<Rightarrow> re" where
  "link_pattern path =
     seq ([lit ''<a'', rep0 (NoneOf [Chr 62]), lit ''href=\"'', rep0 (NoneOf [Chr 34]), lit path,
           Grp 1 (rep1 (NoneOf [Chr 34])), lit ''\"'', rep0 (NoneOf [Chr 62]), lit ''>'', ws0]
          @ b_open @ [Grp 2 (rep1 (NoneOf [Chr 60])), lit ''</b>''])"

definition a_bold :: "re list" where
  "a_bold =
     [lit ''<a'', rep0 (NoneOf [Chr 62]), lit ''>'', ws0] @ b_open
     @ [Grp 1 (rep1 (NoneOf [Chr 60])), lit ''</b>'', ws0, lit ''</a>'']"

definition sector_fallback :: re where
  "sector_fallback = seq ([lit ''caters to'', rep0_lazy AnyChar] @ a_bold @ [ws0, lit ''sector''])"

definition city_fallback :: re where
  "city_fallback = seq ([lit ''based in'', rep0_lazy AnyChar] @ a_bold)"

definition subsector_pattern :: re where
  "subsector_pattern =
     seq ([lit ''Sub Sector'', ws0, lit '':'', ws0] @ b_open
          @ [Grp 1 (rep1 (NoneOf [Chr 60])), lit ''</b>''])"

definition linked_entry :: "str \<Rightarrow> re \<Rightarrow> re \<Rightarrow> str \<Rightarrow> fields" where
  "linked_entry key pattern fallback html_str =
     (case re_search [IGNORECASE] pattern html_str of
        Some m \<Rightarrow> [(key, FStr (clean_text (group m 2)))]
      | None \<Rightarrow> text_entry key [IGNORECASE] fallback 1 html_str)"

definition strip_char :: "nat \<Rightarrow> str \<Rightarrow> str" where
  "strip_char c s = rev (dropWhile (\<lambda>x. x = c) (rev (dropWhile (\<lambda>x. x = c) s)))"

definition description_entry :: "node \<Rightarrow> fields" where
  "description_entry tree =
     (case find_where tree
             (\<lambda>t. is_tag (T ''div'') t \<and> attr t (T ''id'') = Some (T ''company-info-preview'')) of
        None \<Rightarrow> []
      | Some desc_div \<Rightarrow>
          [(T ''description'',
            FStr (take 500 (strip_char 34 (clean_text (Some (text_of desc_div))))))])"

definition extract_company_info :: "document \<Rightarrow> fields" where
  "extract_company_info d =
     linked_entry (T ''sector'') (link_pattern ''know-your-sector/'') sector_fallback (soup_str d)
     @ linked_entry (T ''city'') (link_pattern ''geography-wise-ipos/'') city_fallback (soup_str d)
     @ text_entry (T ''sub_sector'') [IGNORECASE] subsector_pattern 1 (soup_str d)
     @ description_entry (soup d)"

text \<open>
  The subscription. Line 325: \<open>Subscription\s*:.*?<b[^>]*>([^<]+)</b>\<close>; line 331, on
  the cleaned value: \<open>([\d.]+)\s*times\<close>. The table is the first \<open>table\<close> with a
  class in which \<open>subscription\<close> occurs.
\<close>

definition sub_pattern :: re where
  "sub_pattern =
     seq ([lit ''Subscription'', ws0, lit '':'', rep0_lazy AnyChar] @ b_open
          @ [Grp 1 (rep1 (NoneOf [Chr 60])), lit ''</b>''])"

definition times_pattern :: re where
  "times_pattern = seq [Grp 1 (rep1 (OneOf [Digit, Chr 46])), ws0, lit ''times'']"

definition total_subscription_entry :: "str \<Rightarrow> error + fields" where
  "total_subscription_entry html_str =
     (case re_search [IGNORECASE] sub_pattern html_str of
        None \<Rightarrow> Inr []
      | Some sub_match \<Rightarrow>
          (let sub_text = clean_text (group sub_match 1)
           in if sub_text \<noteq> [] \<and> sub_text \<noteq> PLACEHOLDER
              then (case re_search [IGNORECASE] times_pattern sub_text of
                      Some times_match \<Rightarrow>
                        float_entry (T ''total_subscription_times'')
                          (Some (plain_float_group times_match 1))
                    | None \<Rightarrow> Inr [(T ''total_subscription_raw'', FStr sub_text)])
              else Inr []))"

definition category_wise_entry :: "node \<Rightarrow> fields" where
  "category_wise_entry tree =
     (case find_where tree
             (\<lambda>t. is_tag (T ''table'') t
                   \<and> list_ex (\<lambda>c. re_search [] (lit ''subscription'') c \<noteq> None) (classes t)) of
        None \<Rightarrow> []
      | Some sub_table \<Rightarrow> [(T ''category_wise'', FRows (parse_subscription_table sub_table))])"

definition extract_subscription :: "document \<Rightarrow> error + fields" where
  "extract_subscription d =
     in_order [total_subscription_entry (soup_str d), Inr (category_wise_entry (soup d))]"

text \<open>
  The issue composition, lines 372 and 378:
  \<open>fresh issue size of\s*RUPEE\s*([\d,]+\.?\d*)\s*Cr\<close> and
  \<open>Offer for sale being\s*RUPEE\s*([\d,]+\.?\d*)\s*Cr\<close>.
\<close>

definition fresh_pattern :: re where
  "fresh_pattern =
     seq [lit ''fresh issue size of'', ws0, Lit RUPEE, ws0, Grp 1 number, ws0, lit ''Cr'']"

definition ofs_pattern :: re where
  "ofs_pattern =
     seq [lit ''Offer for sale being'', ws0, Lit RUPEE, ws0, Grp 1 number, ws0, lit ''Cr'']"

definition extract_issue_composition :: "str \<Rightarrow> error + fields" where
  "extract_issue_composition html_str =
     in_order
       [float_entry (T ''fresh_issue_cr'') (match_float [IGNORECASE] fresh_pattern html_str),
        float_entry (T ''offer_for_sale_cr'') (match_float [IGNORECASE] ofs_pattern html_str)]"

text \<open>
  The documents: the first link whose \<open>href\<close> the pattern finds,
  \<open>.*RHP\.pdf|.*Red_Herring.*\.pdf\<close> for the prospectus and \<open>.*DRHP\.pdf\<close> for the
  draft, without regard to case.
\<close>

definition rhp_href :: re where
  "rhp_href =
     Alt (seq [rep0 AnyChar, lit ''RHP.pdf''])
         (seq [rep0 AnyChar, lit ''Red_Herring'', rep0 AnyChar, lit ''.pdf''])"

definition drhp_href :: re where
  "drhp_href = seq [rep0 AnyChar, lit ''DRHP.pdf'']"

definition link_entry :: "str \<Rightarrow> re \<Rightarrow> node \<Rightarrow> fields" where
  "link_entry key pattern tree =
     (case find_where tree
             (\<lambda>t. is_tag (T ''a'') t
                   \<and> (case attr t (T ''href'') of
                         None \<Rightarrow> False
                       | Some h \<Rightarrow> re_search [IGNORECASE] pattern h \<noteq> None)) of
        None \<Rightarrow> []
      | Some link \<Rightarrow>
          (case attr link (T ''href'') of
             None \<Rightarrow> []
           | Some h \<Rightarrow> if h \<noteq> [] then [(key, FStr h)] else []))"

definition extract_documents :: "node \<Rightarrow> fields" where
  "extract_documents tree =
     link_entry (T ''rhp_url'') rhp_href tree @ link_entry (T ''drhp_url'') drhp_href tree"

text \<open>
  \<open>extract_all\<close>: the dictionary of line 39 evaluates the nine groups in order. None of
  the functions catches an exception, so the first one raised ends the call.
\<close>

fun all_groups :: "(str \<times> (error + fields)) list \<Rightarrow> error + (str \<times> fields) list" where
  "all_groups [] = Inr []"
| "all_groups ((nm, Inl err) # rest) = Inl err"
| "all_groups ((nm, Inr fs) # rest) =
     (case all_groups rest of Inl err \<Rightarrow> Inl err | Inr gs \<Rightarrow> Inr ((nm, fs) # gs))"

definition extract_all :: "document \<Rightarrow> error + (str \<times> fields) list" where
  "extract_all d =
     all_groups
       [(T ''basic_info'', extract_basic_info d),
        (T ''dates'', Inr (map (\<lambda>(k, v). (k, FStr v)) (extract_dates (soup_str d)))),
        (T ''pricing'', extract_pricing (soup_str d)),
        (T ''financial_info'', extract_financial_info (soup_str d)),
        (T ''stakeholders'', Inr (extract_stakeholders (soup_str d))),
        (T ''company_info'', Inr (extract_company_info d)),
        (T ''subscription'', extract_subscription d),
        (T ''issue_composition'', extract_issue_composition (soup_str d)),
        (T ''documents'', Inr (extract_documents (soup d)))]"

text \<open>The page \<open><p>Face Value RUPEE ,</p>\<close>: a comma where the face value is expected.\<close>

definition face_value_doc :: document where
  "face_value_doc =
     \<lparr>soup = Elem (T ''[document]'') [] [Elem (T ''p'') [] [Text (T ''Face Value '' @ RUPEE @ T '' ,'')]],
      soup_str = T ''<p>Face Value '' @ RUPEE @ T '' ,</p>''\<rparr>"

lemma face_value_doc_match:
  "re_search [IGNORECASE] face_value_pattern (soup_str face_value_doc) = Some [(1, T '','')]"
  by code_simp

lemma face_value_doc_pricing: "extract_pricing (soup_str face_value_doc) = Inl ValueError"
  by code_simp

text \<open>
  Claim C3 at the page above. The pattern of the face value recovers the literal \<open>,\<close>;
  without the comma it is empty and \<open>float\<close> raises \<open>ValueError\<close> (line 186). The
  exception leaves \<open>_extract_pricing\<close> and \<open>extract_all\<close>: no record is returned and
  none of the nine groups is populated.
\<close>

theorem extract_all_raises:
  "extract_all face_value_doc = Inl ValueError"
  by code_simp

subsection \<open>The fallback chains\<close>

text \<open>
  Five fields are read through more than one pattern: the issue size, the issue price and
  the PE ratio by a loop over a list of patterns that ends at the first match (lines 159,
  170 and 213), the sector and the city by a second search in the \<open>else\<close> branch of the
  first (lines 283 and 295).

  \<open>earliest_match\<close> is the match of the first pattern of the list that matches the page,
  written with \<open>find\<close> and not as the loop of the source: the candidate that comes first
  in the priority order among those that match.
\<close>

definition earliest_match :: "reflag list \<Rightarrow> re list \<Rightarrow> str \<Rightarrow> groups option" where
  "earliest_match fl patterns html_str =
     (case find (\<lambda>p. re_search fl p html_str \<noteq> None) patterns of
        None \<Rightarrow> None
      | Some p \<Rightarrow> re_search fl p html_str)"

text \<open>
  \<open>others i es\<close> are the statements of a group except the one at index \<open>i\<close>, and
  \<open>no_raise\<close> holds of statements none of which raises.
\<close>

definition no_raise :: "(error + fields) list \<Rightarrow> bool" where
  "no_raise es = list_all (\<lambda>e. \<not> isl e) es"

definition others :: "nat \<Rightarrow> 'a list \<Rightarrow> 'a list" where
  "others i es = take i es @ drop (Suc i) es"

text \<open>
  \<open>decides result rest key r\<close>: the outcome \<open>r\<close> of \<open>float\<close> on the first group of a match
  settles what the group's function does with \<open>key\<close>. When \<open>float\<close> raises, the function
  raises. When \<open>float\<close> returns \<open>v\<close> and none of the other statements \<open>rest\<close> raises, the
  function returns a dictionary with \<open>v\<close> at \<open>key\<close>. Whenever the function returns a
  dictionary, \<open>float\<close> has returned and its value is the one at \<open>key\<close>.
\<close>

definition decides :: "error + fields \<Rightarrow> (error + fields) list \<Rightarrow> str \<Rightarrow> error + rat \<Rightarrow> bool" where
  "decides result rest key r =
     ((\<forall>err. r = Inl err \<longrightarrow> (\<exists>err'. result = Inl err'))
      \<and> (\<forall>v. r = Inr v \<and> no_raise rest
             \<longrightarrow> (\<exists>g. result = Inr g \<and> map_of g key = Some (FNum v)))
      \<and> (\<forall>g. result = Inr g \<longrightarrow> (\<exists>v. r = Inr v \<and> map_of g key = Some (FNum v))))"

lemma earliest_match_Cons:
  "earliest_match fl (p # ps) html_str
     = (case re_search fl p html_str of None \<Rightarrow> earliest_match fl ps html_str | Some m \<Rightarrow> Some m)"
  by (auto simp: earliest_match_def split: option.splits)

lemma earliest_match_Nil: "earliest_match fl [] html_str = None"
  by (simp add: earliest_match_def)

lemma chain_float_earliest:
  "chain_float fl patterns html_str
     = map_option (\<lambda>m. float_group m 1) (earliest_match fl patterns html_str)"
  by (induction patterns) (simp_all add: earliest_match_Nil earliest_match_Cons split: option.splits)

lemma earliest_match_iff:
  "earliest_match fl patterns html_str = Some m
     \<longleftrightarrow> (\<exists>earlier p later. patterns = earlier @ p # later
            \<and> list_all (\<lambda>q. re_search fl q html_str = None) earlier
            \<and> re_search fl p html_str = Some m)"
proof (induction patterns)
  case Nil
  then show ?case by (simp add: earliest_match_Nil)
next
  case (Cons p ps)
  show ?case
  proof (cases "re_search fl p html_str")
    case None
    have "(\<exists>earlier q later. p # ps = earlier @ q # later
            \<and> list_all (\<lambda>q. re_search fl q html_str = None) earlier
            \<and> re_search fl q html_str = Some m)
         \<longleftrightarrow> (\<exists>earlier q later. ps = earlier @ q # later
            \<and> list_all (\<lambda>q. re_search fl q html_str = None) earlier
            \<and> re_search fl q html_str = Some m)" (is "?L \<longleftrightarrow> ?R")
    proof
      assume ?L
      then obtain earlier q later where e: "p # ps = earlier @ q # later"
        "list_all (\<lambda>q. re_search fl q html_str = None) earlier" "re_search fl q html_str = Some m"
        by blast
      show ?R
      proof (cases earlier)
        case Nil
        then show ?thesis using e None by simp
      next
        case (Cons x xs)
        then show ?thesis using e by auto
      qed
    next
      assume ?R
      then obtain earlier q later where e: "ps = earlier @ q # later"
        "list_all (\<lambda>q. re_search fl q html_str = None) earlier" "re_search fl q html_str = Some m"
        by blast
      then have "p # ps = (p # earlier) @ q # later"
        "list_all (\<lambda>q. re_search fl q html_str = None) (p # earlier)" using None by simp_all
      with e(3) show ?L by blast
    qed
    then show ?thesis using Cons.IH None by (simp add: earliest_match_Cons)
  next
    case (Some m')
    have "(\<exists>earlier q later. p # ps = earlier @ q # later
            \<and> list_all (\<lambda>q. re_search fl q html_str = None) earlier
            \<and> re_search fl q html_str = Some m) \<longleftrightarrow> m' = m" (is "?L \<longleftrightarrow> _")
    proof
      assume ?L
      then obtain earlier q later where e: "p # ps = earlier @ q # later"
        "list_all (\<lambda>q. re_search fl q html_str = None) earlier" "re_search fl q html_str = Some m"
        by blast
      show "m' = m"
      proof (cases earlier)
        case Nil
        then show ?thesis using e Some by simp
      next
        case (Cons x xs)
        then show ?thesis using e Some by simp
      qed
    next
      assume "m' = m"
      then have "p # ps = [] @ p # ps" "list_all (\<lambda>q. re_search fl q html_str = None) []"
        "re_search fl p html_str = Some m" using Some by simp_all
      then show ?L by blast
    qed
    then show ?thesis using Some by (simp add: earliest_match_Cons)
  qed
qed

lemma in_order_map_Inr: "in_order (map Inr fss) = Inr (concat fss)"
  by (induction fss) simp_all

lemma in_order_Inr_D:
  "in_order es = Inr g \<Longrightarrow> es = map Inr (map projr es) \<and> g = concat (map projr es)"
  by (induction es arbitrary: g rule: in_order.induct) (auto split: sum.splits)

lemma in_order_raises: "Inl err \<in> set es \<Longrightarrow> \<exists>err'. in_order es = Inl err'"
  by (induction es rule: in_order.induct) (auto split: sum.splits)

lemma map_of_concat_at:
  assumes "i < length fss" "map_of (fss ! i) key = Some x"
    and "\<forall>j<i. map_of (fss ! j) key = None"
  shows "map_of (concat fss) key = Some x"
  using assms
proof (induction fss arbitrary: i)
  case Nil
  then show ?case by simp
next
  case (Cons fs fss)
  show ?case
  proof (cases i)
    case 0
    then show ?thesis using Cons.prems by (simp add: map_add_def)
  next
    case (Suc k)
    have "map_of fs key = None" using Cons.prems(3) Suc by auto
    moreover have "map_of (concat fss) key = Some x"
      using Cons.prems Suc by (intro Cons.IH [of k]) auto
    ultimately show ?thesis by (simp add: map_add_def)
  qed
qed

lemma float_entry_Some_Inr:
  "float_entry key (Some r) = Inr f \<longleftrightarrow> (\<exists>v. r = Inr v \<and> f = [(key, FNum v)])"
  by (cases r) (auto simp: float_entry_def)

lemma float_entry_other_key:
  "float_entry key r = Inr f \<Longrightarrow> k \<noteq> key \<Longrightarrow> map_of f k = None"
  by (auto simp: float_entry_def split: option.splits sum.splits)

lemma in_order_decides:
  assumes i: "i < length es" and e: "es ! i = float_entry key (Some r)"
    and before: "\<forall>j<i. \<forall>fs. es ! j = Inr fs \<longrightarrow> map_of fs key = None"
  shows "decides (in_order es) (others i es) key r"
proof -
  have A: "\<exists>err'. in_order es = Inl err'" if "r = Inl err" for err
  proof -
    have "es ! i = Inl err" using e that by (simp add: float_entry_def)
    then have "Inl err \<in> set es" using i by (metis nth_mem)
    then show ?thesis by (rule in_order_raises)
  qed
  have C: "\<exists>v. r = Inr v \<and> map_of g key = Some (FNum v)" if "in_order es = Inr g" for g
  proof -
    define fss where "fss = map projr es"
    from in_order_Inr_D [OF that] have fss: "es = map Inr fss" "g = concat fss"
      by (simp_all add: fss_def)
    then have l: "i < length fss" and "float_entry key (Some r) = Inr (fss ! i)"
      using i e by simp_all
    then obtain v where v: "r = Inr v" "fss ! i = [(key, FNum v)]"
      by (auto simp: float_entry_Some_Inr)
    have "\<forall>j<i. map_of (fss ! j) key = None" using before fss(1) l by simp
    from map_of_concat_at [OF l _ this, of "FNum v"] v fss show ?thesis by simp
  qed
  have B: "\<exists>g. in_order es = Inr g \<and> map_of g key = Some (FNum v)"
    if "r = Inr v \<and> no_raise (others i es)" for v
  proof -
    have o: "\<not> isl (es ! j)" if "j < length es" for j
    proof (cases "j = i")
      case True
      then show ?thesis using e \<open>r = Inr v \<and> no_raise (others i es)\<close> by (simp add: float_entry_def)
    next
      case False
      have "es ! j \<in> set (others i es)"
      proof (cases "j < i")
        case True
        then have "es ! j = take i es ! j" by simp
        moreover have "j < length (take i es)" using True i by simp
        ultimately have "es ! j \<in> set (take i es)" by (metis nth_mem)
        then show ?thesis by (simp add: others_def)
      next
        case False
        with \<open>j \<noteq> i\<close> have "Suc i \<le> j" by simp
        then obtain k where k: "j = Suc i + k" using le_Suc_ex by blast
        then have "k < length (drop (Suc i) es)" using that by simp
        moreover have "drop (Suc i) es ! k = es ! j" using k that by simp
        ultimately have "es ! j \<in> set (drop (Suc i) es)" by (metis nth_mem)
        then show ?thesis by (simp add: others_def)
      qed
      then show ?thesis using \<open>r = Inr v \<and> no_raise (others i es)\<close>
        by (auto simp: no_raise_def list_all_iff)
    qed
    have "es = map Inr (map projr es)"
    proof (rule nth_equalityI)
      show "length es = length (map Inr (map projr es))" by simp
    next
      fix j assume "j < length es"
      with o [of j] show "es ! j = map Inr (map projr es) ! j" by (cases "es ! j") simp_all
    qed
    then have "in_order es = Inr (concat (map projr es))" using in_order_map_Inr by metis
    then obtain g where g: "in_order es = Inr g" by blast
    from C [OF g] that g show ?thesis by auto
  qed
  from A B C show ?thesis unfolding decides_def by blast
qed

lemma linked_entry_primary:
  "re_search [IGNORECASE] pattern html_str = Some m
     \<Longrightarrow> linked_entry key pattern fallback html_str = [(key, FStr (clean_text (group m 2)))]"
  by (simp add: linked_entry_def)

lemma linked_entry_fallback:
  "re_search [IGNORECASE] pattern html_str = None
     \<Longrightarrow> re_search [IGNORECASE] fallback html_str = Some m
     \<Longrightarrow> linked_entry key pattern fallback html_str = [(key, FStr (clean_text (group m 1)))]"
  by (simp add: linked_entry_def text_entry_def)

lemma linked_entry_other_key:
  "k \<noteq> key \<Longrightarrow> map_of (linked_entry key pattern fallback html_str) k = None"
  by (auto simp: linked_entry_def text_entry_def split: option.splits)

lemma company_info_sector:
  "linked_entry (T ''sector'') (link_pattern ''know-your-sector/'') sector_fallback (soup_str d)
     = [(T ''sector'', x)]
   \<Longrightarrow> map_of (extract_company_info d) (T ''sector'') = Some x"
  by (simp add: extract_company_info_def map_add_def)

lemma company_info_city:
  assumes "linked_entry (T ''city'') (link_pattern ''geography-wise-ipos/'') city_fallback (soup_str d)
     = [(T ''city'', x)]"
  shows "map_of (extract_company_info d) (T ''city'') = Some x"
proof -
  have k: "T ''city'' \<noteq> T ''sector''" by (simp add: T_def)
  from linked_entry_other_key [OF k] assms show ?thesis
    by (simp add: extract_company_info_def map_add_def)
qed

lemma pricing_decides_size:
  "decides (extract_pricing html_str) (others 0 (pricing_entries html_str)) (T ''ipo_size_cr'') r"
  if "chain_float [IGNORECASE] size_patterns html_str = Some r"
  unfolding extract_pricing_def
  by (rule in_order_decides) (simp_all add: pricing_entries_def that)

lemma pricing_decides_price:
  "decides (extract_pricing html_str) (others 1 (pricing_entries html_str)) (T ''issue_price_rs'') r"
  if "chain_float [IGNORECASE] price_patterns html_str = Some r"
  unfolding extract_pricing_def
proof (rule in_order_decides)
  show "1 < length (pricing_entries html_str)" by (simp add: pricing_entries_def)
  show "pricing_entries html_str ! 1 = float_entry (T ''issue_price_rs'') (Some r)"
    by (simp add: pricing_entries_def that)
  have k: "T ''issue_price_rs'' \<noteq> T ''ipo_size_cr''" by (simp add: T_def)
  show "\<forall>j<1. \<forall>fs. pricing_entries html_str ! j = Inr fs \<longrightarrow> map_of fs (T ''issue_price_rs'') = None"
    using float_entry_other_key [OF _ k] by (auto simp: pricing_entries_def)
qed

lemma financial_decides_pe:
  "decides (extract_financial_info html_str) (others 1 (financial_entries html_str)) (T ''pe_ratio'') r"
  if "chain_float [IGNORECASE] pe_patterns html_str = Some r"
  unfolding extract_financial_info_def
proof (rule in_order_decides)
  show "1 < length (financial_entries html_str)" by (simp add: financial_entries_def)
  show "financial_entries html_str ! 1 = float_entry (T ''pe_ratio'') (Some r)"
    by (simp add: financial_entries_def that)
  have k: "T ''pe_ratio'' \<noteq> T ''market_cap_cr''" by (simp add: T_def)
  show "\<forall>j<1. \<forall>fs. financial_entries html_str ! j = Inr fs \<longrightarrow> map_of fs (T ''pe_ratio'') = None"
    using float_entry_other_key [OF _ k] by (auto simp: financial_entries_def)
qed

text \<open>
  Claim C7. In every ordered fallback chain of the extractor the field is read from the
  earliest pattern that matches; the patterns after it have no part in the value.

  The loop over a list of patterns returns \<open>float\<close> of group 1 of the earliest match, for
  every list of patterns and every page. The earliest match is the match of a pattern
  none of whose predecessors matches, whatever patterns follow it and whether they match
  or not. For the issue size, the issue price and the PE ratio, the earliest match
  decides the field in the sense of \<open>decides\<close>: the value stored at the key is the number
  read from that match, and the function returns it whenever the conversion succeeds and
  no other statement of the function raises. For the sector and the city, a match of the
  link pattern gives the field its group 2, cleaned, and the prose pattern is not
  consulted; only when the link pattern does not match does a match of the prose pattern
  give the field its group 1, cleaned.
\<close>

theorem fallback_first_match_wins:
  "chain_float fl patterns html_str
     = map_option (\<lambda>m. float_group m 1) (earliest_match fl patterns html_str)
   \<and> (list_all (\<lambda>q. re_search fl q html_str = None) earlier \<and> re_search fl p html_str = Some m
        \<longrightarrow> earliest_match fl (earlier @ p # later) html_str = Some m)
   \<and> (earliest_match [IGNORECASE] size_patterns html_str = Some m
        \<longrightarrow> decides (extract_pricing html_str) (others 0 (pricing_entries html_str))
              (T ''ipo_size_cr'') (float_group m 1))
   \<and> (earliest_match [IGNORECASE] price_patterns html_str = Some m
        \<longrightarrow> decides (extract_pricing html_str) (others 1 (pricing_entries html_str))
              (T ''issue_price_rs'') (float_group m 1))
   \<and> (earliest_match [IGNORECASE] pe_patterns html_str = Some m
        \<longrightarrow> decides (extract_financial_info html_str) (others 1 (financial_entries html_str))
              (T ''pe_ratio'') (float_group m 1))
   \<and> (re_search [IGNORECASE] (link_pattern ''know-your-sector/'') (soup_str d) = Some m
        \<longrightarrow> map_of (extract_company_info d) (T ''sector'') = Some (FStr (clean_text (group m 2))))
   \<and> (re_search [IGNORECASE] (link_pattern ''know-your-sector/'') (soup_str d) = None
        \<and> re_search [IGNORECASE] sector_fallback (soup_str d) = Some m
        \<longrightarrow> map_of (extract_company_info d) (T ''sector'') = Some (FStr (clean_text (group m 1))))
   \<and> (re_search [IGNORECASE] (link_pattern ''geography-wise-ipos/'') (soup_str d) = Some m
        \<longrightarrow> map_of (extract_company_info d) (T ''city'') = Some (FStr (clean_text (group m 2))))
   \<and> (re_search [IGNORECASE] (link_pattern ''geography-wise-ipos/'') (soup_str d) = None
        \<and> re_search [IGNORECASE] city_fallback (soup_str d) = Some m
        \<longrightarrow> map_of (extract_company_info d) (T ''city'') = Some (FStr (clean_text (group m 1))))"
proof -
  have c: "chain_float fl ps html_str = Some (float_group m 1)"
    if "earliest_match fl ps html_str = Some m" for fl ps
    using that by (simp add: chain_float_earliest)
  have e: "earliest_match fl (earlier @ p # later) html_str = Some m"
    if "list_all (\<lambda>q. re_search fl q html_str = None) earlier \<and> re_search fl p html_str = Some m"
    using that unfolding earliest_match_iff by blast
  show ?thesis
    using chain_float_earliest [of fl patterns html_str] e
      pricing_decides_size [OF c] pricing_decides_price [OF c] financial_decides_pe [OF c]
      company_info_sector [OF linked_entry_primary] company_info_sector [OF linked_entry_fallback]
      company_info_city [OF linked_entry_primary] company_info_city [OF linked_entry_fallback]
    by blast
qed

text \<open>
  Pages on which more than one candidate matches. On \<open>price_doc\<close> the second pattern of the
  issue price matches nearer to the start of the page than the first one does.
\<close>

definition price_doc :: str where
  "price_doc = T ''IPO price of x <b>'' @ RUPEE @ T ''593</b> Issue Price : <b>'' @ RUPEE
      @ T '' 563.00</b>''"

definition pe_doc :: str where
  "pe_doc = T ''PE multiple : <b>48.23</b> PE Ratio:<b>50.1x</b>''"

text \<open>
  On \<open>sector_doc\<close> and \<open>city_doc\<close> the link and the prose name different values; on
  \<open>prose_doc\<close> only the prose names any.
\<close>

definition sector_doc :: document where
  "sector_doc =
     \<lparr>soup = Elem (T ''[document]'') [] [],
      soup_str = T ''<a href=\"know-your-sector/h\"><b>Health</b> caters to <a><b>Pharma</b></a> sector''\<rparr>"

definition city_doc :: document where
  "city_doc =
     \<lparr>soup = Elem (T ''[document]'') [] [],
      soup_str = T ''<a href=\"geography-wise-ipos/g\"><b>Goa</b> based in <a><b>Pune</b></a>''\<rparr>"

definition prose_doc :: document where
  "prose_doc =
     \<lparr>soup = Elem (T ''[document]'') [] [],
      soup_str = T ''based in <a><b> Pune</b></a> caters to <a><b>Pharma</b></a> sector''\<rparr>"

lemma pricing_doc_matches:
  "map (\<lambda>p. re_search [IGNORECASE] p pricing_doc) size_patterns
     = [Some [(2, T ''Cr''), (1, T ''1,200.50'')], Some [(2, T ''Cr.''), (1, T ''100'')],
        Some [(2, T ''Cr.''), (1, T ''300'')]]"
  by code_simp

lemma pricing_doc_others: "no_raise (others 0 (pricing_entries pricing_doc))"
  by code_simp

lemma pricing_doc_float: "float_group [(2, T ''Cr''), (1, T ''1,200.50'')] 1 = Inr (2401 / 2)"
  by code_simp

lemma price_doc_matches:
  "map (\<lambda>p. re_search [IGNORECASE] p price_doc) price_patterns
     = [Some [(1, T ''563.00'')], Some [(1, T ''593'')]]"
  by code_simp

lemma price_doc_others: "no_raise (others 1 (pricing_entries price_doc))"
  by code_simp

lemma price_doc_float: "float_group [(1, T ''563.00'')] 1 = Inr 563"
  by code_simp

lemma pe_doc_matches:
  "map (\<lambda>p. re_search [IGNORECASE] p pe_doc) pe_patterns
     = [Some [(1, T ''48.23'')], Some [(1, T ''50.1'')]]"
  by code_simp

lemma pe_doc_others: "no_raise (others 1 (financial_entries pe_doc))"
  by code_simp

lemma pe_doc_float: "float_group [(1, T ''48.23'')] 1 = Inr (4823 / 100)"
  by code_simp

lemma sector_doc_sector:
  "re_search [IGNORECASE] (link_pattern ''know-your-sector/'') (soup_str sector_doc)
     = Some [(2, T ''Health''), (1, T ''h'')]"
  by code_simp

lemma sector_doc_sector_fallback:
  "re_search [IGNORECASE] sector_fallback (soup_str sector_doc) = Some [(1, T ''Pharma'')]"
  by code_simp

lemma city_doc_city:
  "re_search [IGNORECASE] (link_pattern ''geography-wise-ipos/'') (soup_str city_doc)
     = Some [(2, T ''Goa''), (1, T ''g'')]"
  by code_simp

lemma city_doc_city_fallback:
  "re_search [IGNORECASE] city_fallback (soup_str city_doc) = Some [(1, T ''Pune'')]"
  by code_simp

lemma prose_doc_sector:
  "re_search [IGNORECASE] (link_pattern ''know-your-sector/'') (soup_str prose_doc) = None"
  by code_simp

lemma prose_doc_sector_fallback:
  "re_search [IGNORECASE] sector_fallback (soup_str prose_doc) = Some [(1, T ''Pharma'')]"
  by code_simp

lemma prose_doc_city:
  "re_search [IGNORECASE] (link_pattern ''geography-wise-ipos/'') (soup_str prose_doc) = None"
  by code_simp

lemma prose_doc_city_fallback:
  "re_search [IGNORECASE] city_fallback (soup_str prose_doc) = Some [(1, T '' Pune'')]"
  by code_simp

lemma head_first: "xs \<noteq> [] \<Longrightarrow> xs = [] @ hd xs # tl xs"
  by simp

lemma head_match: "map f xs = Some m # rest \<Longrightarrow> xs \<noteq> [] \<and> f (hd xs) = Some m"
  by (cases xs) simp_all

text \<open>
  Claim C7 at these pages. On each of the first three all the patterns of the chain
  match, at different numbers, and the field is the number of the first pattern: 1200.5
  of 1200.5, 100 and 300 for the issue size, 563 of 563 and 593 for the issue price (the
  second pattern matches nearer to the start of the page), 48.23 of 48.23 and 50.1 for the
  PE ratio. On \<open>sector_doc\<close> and \<open>city_doc\<close> both patterns match and the field is the
  text of the link; on \<open>prose_doc\<close> the link patterns do not match and the fields are
  the texts of the prose.
\<close>

theorem fallback_first_match_wins_witness:
  "map (\<lambda>p. re_search [IGNORECASE] p pricing_doc) size_patterns
     = [Some [(2, T ''Cr''), (1, T ''1,200.50'')], Some [(2, T ''Cr.''), (1, T ''100'')],
        Some [(2, T ''Cr.''), (1, T ''300'')]]
   \<and> earliest_match [IGNORECASE] size_patterns pricing_doc = Some [(2, T ''Cr''), (1, T ''1,200.50'')]
   \<and> no_raise (others 0 (pricing_entries pricing_doc))
   \<and> (\<exists>g. extract_pricing pricing_doc = Inr g \<and> map_of g (T ''ipo_size_cr'') = Some (FNum (2401 / 2)))
   \<and> map (\<lambda>p. re_search [IGNORECASE] p price_doc) price_patterns
       = [Some [(1, T ''563.00'')], Some [(1, T ''593'')]]
   \<and> earliest_match [IGNORECASE] price_patterns price_doc = Some [(1, T ''563.00'')]
   \<and> no_raise (others 1 (pricing_entries price_doc))
   \<and> (\<exists>g. extract_pricing price_doc = Inr g \<and> map_of g (T ''issue_price_rs'') = Some (FNum 563))
   \<and> map (\<lambda>p. re_search [IGNORECASE] p pe_doc) pe_patterns
       = [Some [(1, T ''48.23'')], Some [(1, T ''50.1'')]]
   \<and> earliest_match [IGNORECASE] pe_patterns pe_doc = Some [(1, T ''48.23'')]
   \<and> no_raise (others 1 (financial_entries pe_doc))
   \<and> (\<exists>g. extract_financial_info pe_doc = Inr g \<and> map_of g (T ''pe_ratio'') = Some (FNum (4823 / 100)))
   \<and> re_search [IGNORECASE] (link_pattern ''know-your-sector/'') (soup_str sector_doc)
       = Some [(2, T ''Health''), (1, T ''h'')]
   \<and> re_search [IGNORECASE] sector_fallback (soup_str sector_doc) = Some [(1, T ''Pharma'')]
   \<and> map_of (extract_company_info sector_doc) (T ''sector'') = Some (FStr (T ''Health''))
   \<and> re_search [IGNORECASE] (link_pattern ''geography-wise-ipos/'') (soup_str city_doc)
       = Some [(2, T ''Goa''), (1, T ''g'')]
   \<and> re_search [IGNORECASE] city_fallback (soup_str city_doc) = Some [(1, T ''Pune'')]
   \<and> map_of (extract_company_info city_doc) (T ''city'') = Some (FStr (T ''Goa''))
   \<and> re_search [IGNORECASE] (link_pattern ''know-your-sector/'') (soup_str prose_doc) = None
   \<and> re_search [IGNORECASE] sector_fallback (soup_str prose_doc) = Some [(1, T ''Pharma'')]
   \<and> map_of (extract_company_info prose_doc) (T ''sector'') = Some (FStr (T ''Pharma''))
   \<and> re_search [IGNORECASE] (link_pattern ''geography-wise-ipos/'') (soup_str prose_doc) = None
   \<and> re_search [IGNORECASE] city_fallback (soup_str prose_doc) = Some [(1, T '' Pune'')]
   \<and> map_of (extract_company_info prose_doc) (T ''city'') = Some (FStr (T ''Pune''))"
proof -
  let ?m1 = "[(2, T ''Cr''), (1, T ''1,200.50'')]"
  let ?m2 = "[(1, T ''563.00'')]"
  let ?m3 = "[(1, T ''48.23'')]"
  let ?m4 = "[(2, T ''Health''), (1, T ''h'')]"
  let ?m5 = "[(2, T ''Goa''), (1, T ''g'')]"
  let ?m6 = "[(1, T ''Pharma'')]"
  let ?m7 = "[(1, T '' Pune'')]"
  have nil: "list_all (\<lambda>q. re_search fl q html_str = None) []" for fl html_str by simp
  note h1 = head_match [OF pricing_doc_matches]
  from fallback_first_match_wins [of "[IGNORECASE]" _ pricing_doc "[]" "hd size_patterns" ?m1
      "tl size_patterns"] nil h1
  have "earliest_match [IGNORECASE] ([] @ hd size_patterns # tl size_patterns) pricing_doc = Some ?m1"
    by blast
  with head_first [of size_patterns] h1
  have e1: "earliest_match [IGNORECASE] size_patterns pricing_doc = Some ?m1" by simp
  with fallback_first_match_wins [of _ _ pricing_doc _ _ ?m1]
  have "decides (extract_pricing pricing_doc) (others 0 (pricing_entries pricing_doc))
          (T ''ipo_size_cr'') (float_group ?m1 1)" by blast
  with pricing_doc_float pricing_doc_others
  have 1: "\<exists>g. extract_pricing pricing_doc = Inr g \<and> map_of g (T ''ipo_size_cr'') = Some (FNum (2401 / 2))"
    unfolding decides_def by blast
  note h2 = head_match [OF price_doc_matches]
  from fallback_first_match_wins [of "[IGNORECASE]" _ price_doc "[]" "hd price_patterns" ?m2
      "tl price_patterns"] nil h2
  have "earliest_match [IGNORECASE] ([] @ hd price_patterns # tl price_patterns) price_doc = Some ?m2"
    by blast
  with head_first [of price_patterns] h2
  have e2: "earliest_match [IGNORECASE] price_patterns price_doc = Some ?m2" by simp
  with fallback_first_match_wins [of _ _ price_doc _ _ ?m2]
  have "decides (extract_pricing price_doc) (others 1 (pricing_entries price_doc))
          (T ''issue_price_rs'') (float_group ?m2 1)" by blast
  with price_doc_float price_doc_others
  have 2: "\<exists>g. extract_pricing price_doc = Inr g \<and> map_of g (T ''issue_price_rs'') = Some (FNum 563)"
    unfolding decides_def by blast
  note h3 = head_match [OF pe_doc_matches]
  from fallback_first_match_wins [of "[IGNORECASE]" _ pe_doc "[]" "hd pe_patterns" ?m3
      "tl pe_patterns"] nil h3
  have "earliest_match [IGNORECASE] ([] @ hd pe_patterns # tl pe_patterns) pe_doc = Some ?m3"
    by blast
  with head_first [of pe_patterns] h3
  have e3: "earliest_match [IGNORECASE] pe_patterns pe_doc = Some ?m3" by simp
  with fallback_first_match_wins [of _ _ pe_doc _ _ ?m3]
  have "decides (extract_financial_info pe_doc) (others 1 (financial_entries pe_doc))
          (T ''pe_ratio'') (float_group ?m3 1)" by blast
  with pe_doc_float pe_doc_others
  have 3: "\<exists>g. extract_financial_info pe_doc = Inr g \<and> map_of g (T ''pe_ratio'') = Some (FNum (4823 / 100))"
    unfolding decides_def by blast
  have c4: "clean_text (group ?m4 2) = T ''Health''" by code_simp
  from fallback_first_match_wins [of _ _ _ _ _ ?m4 _ sector_doc] sector_doc_sector
  have "map_of (extract_company_info sector_doc) (T ''sector'') = Some (FStr (clean_text (group ?m4 2)))"
    by blast
  then have 4: "map_of (extract_company_info sector_doc) (T ''sector'') = Some (FStr (T ''Health''))"
    by (simp only: c4)
  have c5: "clean_text (group ?m5 2) = T ''Goa''" by code_simp
  from fallback_first_match_wins [of _ _ _ _ _ ?m5 _ city_doc] city_doc_city
  have "map_of (extract_company_info city_doc) (T ''city'') = Some (FStr (clean_text (group ?m5 2)))"
    by blast
  then have 5: "map_of (extract_company_info city_doc) (T ''city'') = Some (FStr (T ''Goa''))"
    by (simp only: c5)
  have c6: "clean_text (group ?m6 1) = T ''Pharma''" by code_simp
  from fallback_first_match_wins [of _ _ _ _ _ ?m6 _ prose_doc] prose_doc_sector
    prose_doc_sector_fallback
  have "map_of (extract_company_info prose_doc) (T ''sector'') = Some (FStr (clean_text (group ?m6 1)))"
    by blast
  then have 6: "map_of (extract_company_info prose_doc) (T ''sector'') = Some (FStr (T ''Pharma''))"
    by (simp only: c6)
  have c7: "clean_text (group ?m7 1) = T ''Pune''" by code_simp
  from fallback_first_match_wins [of _ _ _ _ _ ?m7 _ prose_doc] prose_doc_city
    prose_doc_city_fallback
  have "map_of (extract_company_info prose_doc) (T ''city'') = Some (FStr (clean_text (group ?m7 1)))"
    by blast
  then have 7: "map_of (extract_company_info prose_doc) (T ''city'') = Some (FStr (T ''Pune''))"
    by (simp only: c7)
  show ?thesis
    by (intro conjI pricing_doc_matches e1 pricing_doc_others 1 price_doc_matches e2
        price_doc_others 2 pe_doc_matches e3 pe_doc_others 3 sector_doc_sector
        sector_doc_sector_fallback 4 city_doc_city city_doc_city_fallback 5 prose_doc_sector
        prose_doc_sector_fallback 6 prose_doc_city prose_doc_city_fallback 7)
qed

end
